theory Spec2Isabelle
  imports Complex_Main "HOL-Library.Product_Lexorder"
begin

section \<open>Conventions of the embedding\<close>

text \<open>
  The belief engine of memr: \<^verbatim>\<open>utils/embeddings.ts\<close> (the hash embedding and the cosine
  similarity) and \<^verbatim>\<open>storage/belief-store.ts\<close> (the repository over the SQL table
  \<^verbatim>\<open>beliefs\<close>).

  \<^item> A JavaScript number and an SQL REAL are a \<^typ>\<open>real\<close>: the rounding of IEEE doubles
    is not part of the model. Counters, timestamps and limits are \<^typ>\<open>int\<close>. The cosine
    similarity, whose result on arbitrary vectors depends on the range of a double, is
    given a second time over numbers that overflow and underflow as doubles do.
  \<^item> A JavaScript string that is read character by character is the list of its UTF-16
    code units (\<^verbatim>\<open>charCodeAt\<close>); identifiers and reasons, which are only compared, are
    \<^typ>\<open>string\<close>.
  \<^item> \<^verbatim>\<open>String.prototype.toLowerCase\<close> is a parameter \<open>lc\<close> of the functions that call
    it.
  \<^item> A \<^verbatim>\<open>throw\<close> is the left injection of a sum.
\<close>

type_synonym js_string = "nat list"

datatype error =
  VectorsMustHaveSameLength
| ConstraintViolation

section \<open>utils/embeddings.ts\<close>

text \<open>
  \<^verbatim>\<open>embedding[idx] += v\<close>. The index is \<^verbatim>\<open>x % dims\<close>, below \<open>dims\<close> when \<open>dims > 0\<close>;
  for \<open>dims = 0\<close> it is NaN in the source and no slot of the (empty) array changes.
\<close>

definition add_at :: "real list \<Rightarrow> nat \<Rightarrow> real \<Rightarrow> real list" where
  "add_at e k v = (if k < length e then e[k := e ! k + v] else e)"

text \<open>The body of the loop over the character positions \<open>i\<close> of the lower-cased text.\<close>

definition embed_char :: "js_string \<Rightarrow> nat \<Rightarrow> nat \<Rightarrow> real list \<Rightarrow> real list" where
  "embed_char normalized dims i embedding =
    (let charCode = normalized ! i;
         idx1 = (charCode * (i + 1)) mod dims;
         e1 = add_at embedding idx1 (1 / real (i + 1));
         e2 = (if i > 0
               then (let prevCode = normalized ! (i - 1);
                         idx2 = (prevCode * 31 + charCode) mod dims
                     in add_at e1 idx2 (0.5 / real (i + 1)))
               else e1);
         e3 = (if normalized ! i = 32 \<and> i + 1 < length normalized
               then (let nextCode = normalized ! (i + 1);
                         idx3 = (nextCode * 17 + i) mod dims
                     in add_at e2 idx3 0.3)
               else e2)
     in e3)"

definition generateEmbedding :: "(js_string \<Rightarrow> js_string) \<Rightarrow> js_string \<Rightarrow> nat \<Rightarrow> real list" where
  "generateEmbedding lc text_in dims =
    (let normalized = lc text_in;
         embedding = fold (embed_char normalized dims) [0..<length normalized] (replicate dims 0);
         magnitude = sqrt (foldl (\<lambda>sum v. sum + v * v) 0 embedding)
     in if magnitude > 0 then map (\<lambda>v. v / magnitude) embedding else embedding)"

text \<open>The default of the parameter \<^verbatim>\<open>dims\<close>.\<close>

definition default_dims :: nat where
  "default_dims = 384"

text \<open>
  \<^verbatim>\<open>cosineSimilarity\<close>: the three accumulators of the loop over the indices of \<open>a\<close>.
\<close>

definition cosine_step :: "real list \<Rightarrow> real list \<Rightarrow> nat \<Rightarrow> real \<times> real \<times> real \<Rightarrow> real \<times> real \<times> real" where
  "cosine_step a b i acc =
    (case acc of (dotProduct, normA, normB) \<Rightarrow>
       (dotProduct + a ! i * b ! i, normA + a ! i * a ! i, normB + b ! i * b ! i))"

definition cosineSimilarity :: "real list \<Rightarrow> real list \<Rightarrow> error + real" where
  "cosineSimilarity a b =
    (if length a \<noteq> length b then Inl VectorsMustHaveSameLength
     else (case fold (cosine_step a b) [0..<length a] (0, 0, 0) of
             (dotProduct, normA, normB) \<Rightarrow>
               (let magnitude = sqrt normA * sqrt normB
                in if magnitude = 0 then Inr 0 else Inr (dotProduct / magnitude))))"












text \<open>The notions the specification states the two functions with.\<close>

definition dot :: "real list \<Rightarrow> real list \<Rightarrow> real" where
  "dot a b = (\<Sum>(x, y)\<leftarrow>zip a b. x * y)"

definition l2norm :: "real list \<Rightarrow> real" where
  "l2norm v = sqrt (\<Sum>x\<leftarrow>v. x * x)"





text \<open>
  A lower-casing of texts whose code units are all ASCII, for the concrete instances
  below (\<^verbatim>\<open>toLowerCase\<close> agrees with it on such texts).
\<close>

definition asciiLower :: "js_string \<Rightarrow> js_string" where
  "asciiLower s = map (\<lambda>c. if 65 \<le> c \<and> c \<le> 90 then c + 32 else c) s"

section \<open>types.ts\<close>

datatype BeliefDomain =
  code_pattern | user_preference | project_structure | workflow | decision | constraint_domain

text \<open>
  \<^verbatim>\<open>interface Belief\<close>, which is also the row of the table \<^verbatim>\<open>beliefs\<close>: the columns
  \<^verbatim>\<open>evidence_ids\<close>, \<^verbatim>\<open>tags\<close> and \<^verbatim>\<open>embedding\<close> hold the JSON text of the value, written
  by \<^verbatim>\<open>JSON.stringify\<close> and read back by \<^verbatim>\<open>JSON.parse\<close>. An optional field and a
  nullable column are an \<^typ>\<open>'a option\<close>.
\<close>

record Belief =
  belief_id :: string
  belief_text :: js_string
  domain :: BeliefDomain
  confidence :: real
  evidence_ids :: "string list"
  supporting_count :: int
  contradicting_count :: int
  derived_at :: int
  last_evaluated :: int
  supersedes_id :: "string option"
  invalidated_at :: "int option"
  invalidation_reason :: "string option"
  embedding :: "real list option"
  importance :: int
  tags :: "string list"

text \<open>\<^verbatim>\<open>Partial<Belief>\<close>: every field may be absent (\<^verbatim>\<open>undefined\<close>).\<close>

record BeliefChanges =
  ch_id :: "string option"
  ch_text :: "js_string option"
  ch_domain :: "BeliefDomain option"
  ch_confidence :: "real option"
  ch_evidence_ids :: "string list option"
  ch_supporting_count :: "int option"
  ch_contradicting_count :: "int option"
  ch_derived_at :: "int option"
  ch_last_evaluated :: "int option"
  ch_supersedes_id :: "string option"
  ch_invalidated_at :: "int option"
  ch_invalidation_reason :: "string option"
  ch_embedding :: "real list option"
  ch_importance :: "int option"
  ch_tags :: "string list option"

text \<open>
  \<^verbatim>\<open>interface SearchOptions\<close> (its \<^verbatim>\<open>timeRange\<close> is not read by the belief store).
\<close>

record SearchOptions =
  opt_limit :: "int option"
  opt_minConfidence :: "real option"
  opt_domain :: "BeliefDomain option"
  opt_activeOnly :: "bool option"

datatype MatchType = semantic | keyword | hybrid

record BeliefSearchResult =
  belief :: Belief
  score :: real
  matchType :: MatchType

text \<open>\<^verbatim>\<open>interface Config\<close>, the two fields the belief store reads, and their defaults.\<close>

record Config =
  confidenceDecayPerDay :: real
  minConfidenceFloor :: real

definition DEFAULT_CONFIG :: Config where
  "DEFAULT_CONFIG = \<lparr>confidenceDecayPerDay = 0.01, minConfidenceFloor = 0.3\<rparr>"

section \<open>The JavaScript and SQL operators the store uses\<close>

text \<open>
  \<^verbatim>\<open>if (x)\<close> and \<^verbatim>\<open>x || d\<close> on an optional number: the number counts as given when it is
  defined and not zero.
\<close>

fun truthy :: "'a::zero option \<Rightarrow> 'a option" where
  "truthy None = None"
| "truthy (Some x) = (if x = 0 then None else Some x)"

text \<open>\<^verbatim>\<open>s || null\<close> and \<^verbatim>\<open>s || undefined\<close> on an optional string: the empty string is dropped.\<close>

fun truthy_string :: "string option \<Rightarrow> string option" where
  "truthy_string None = None"
| "truthy_string (Some s) = (if s = [] then None else Some s)"

text \<open>\<^verbatim>\<open>options.limit || 10\<close>.\<close>

definition limit_or_10 :: "SearchOptions \<Rightarrow> int" where
  "limit_or_10 options = (case truthy (opt_limit options) of None \<Rightarrow> 10 | Some l \<Rightarrow> l)"

text \<open>SQL \<^verbatim>\<open>LIMIT n\<close>: a negative \<open>n\<close> is no limit.\<close>

definition sql_limit :: "int \<Rightarrow> 'a list \<Rightarrow> 'a list" where
  "sql_limit n rows = (if n < 0 then rows else take (nat n) rows)"

text \<open>\<^verbatim>\<open>xs.slice(0, n)\<close>: a negative \<open>n\<close> counts from the end.\<close>

definition slice0 :: "int \<Rightarrow> 'a list \<Rightarrow> 'a list" where
  "slice0 n xs = (if n < 0 then take (nat (int (length xs) + n)) xs else take (nat n) xs)"

text \<open>
  The quotient \<^verbatim>\<open>(? - last_evaluated) / ?\<close> of the decay statement. SQL divides by the
  storage classes of its operands: two INTEGERs give the quotient truncated towards zero,
  a REAL operand gives the real quotient. \<^verbatim>\<open>last_evaluated\<close> is an INTEGER column, and
  the program runs on \<^verbatim>\<open>bun:sqlite\<close> (\<^verbatim>\<open>db/sqlite.ts\<close>), which binds a JavaScript number
  that is a whole number as an INTEGER: \<^verbatim>\<open>Date.now()\<close> and \<^verbatim>\<open>dayInMs\<close> are whole numbers,
  so the program divides INTEGERs, which is \<open>SqlInteger\<close>. \<open>SqlReal\<close> is the reading of a
  driver that binds every number as a REAL; the statements about the range of the
  confidence and about repeated sweeps hold under both.
\<close>

datatype sql_class = SqlInteger | SqlReal

definition dayInMs :: int where
  "dayInMs = 24 * 60 * 60 * 1000"

definition sql_int_div :: "int \<Rightarrow> int \<Rightarrow> int" where
  "sql_int_div a b = sgn a * sgn b * (\<bar>a\<bar> div \<bar>b\<bar>)"

fun elapsedDays :: "sql_class \<Rightarrow> int \<Rightarrow> int \<Rightarrow> real" where
  "elapsedDays SqlInteger now le = real_of_int (sql_int_div (now - le) dayInMs)"
| "elapsedDays SqlReal now le = (real_of_int now - real_of_int le) / real_of_int dayInMs"

text \<open>
  The full-text index \<^verbatim>\<open>beliefs_fts\<close> is outside the source: which rows
  \<^verbatim>\<open>beliefs_fts MATCH ?\<close> selects for a query and the \<^verbatim>\<open>rank\<close> it orders them by are
  parameters. A query text the index rejects as malformed makes the statement throw; the
  parameters are total, so that throw is not represented.
\<close>

record fts_index =
  fts_match :: "js_string \<Rightarrow> Belief \<Rightarrow> bool"
  fts_rank :: "js_string \<Rightarrow> Belief \<Rightarrow> real"

section \<open>storage/belief-store.ts\<close>

text \<open>
  The table is the list of its rows in rowid order. A statement that changes rows maps
  over the list; \<^verbatim>\<open>result.changes\<close> is the number of rows its WHERE clause selects.
  \<^verbatim>\<open>ORDER BY\<close> is a stable sort of the selected rows (SQL leaves the order of ties open).
\<close>

definition rowToBelief :: "Belief \<Rightarrow> Belief" where
  "rowToBelief row = row
    \<lparr>supersedes_id := truthy_string (supersedes_id row),
     invalidated_at := truthy (invalidated_at row),
     invalidation_reason := truthy_string (invalidation_reason row)\<rparr>"

text \<open>
  \<^verbatim>\<open>create\<close>. The identifier \<^verbatim>\<open>uuidv4()\<close> is the parameter \<open>new_id\<close>; the field
  \<open>belief_id\<close> of the argument stands for nothing (\<^verbatim>\<open>Omit<Belief, 'id'>\<close>). The INSERT
  fails on a primary key that exists and on a \<^verbatim>\<open>supersedes_id\<close> that references no row
  (\<^verbatim>\<open>PRAGMA foreign_keys = ON\<close>).
\<close>

definition create ::
  "(js_string \<Rightarrow> js_string) \<Rightarrow> string \<Rightarrow> Belief \<Rightarrow> Belief list \<Rightarrow> error + (Belief \<times> Belief list)" where
  "create lc new_id b table =
    (let emb = (case embedding b of
                  None \<Rightarrow> generateEmbedding lc (belief_text b) default_dims
                | Some e \<Rightarrow> e);
         fullBelief = b\<lparr>belief_id := new_id, embedding := Some emb\<rparr>;
         row = fullBelief
           \<lparr>supersedes_id := truthy_string (supersedes_id b),
            invalidated_at := truthy (invalidated_at b),
            invalidation_reason := truthy_string (invalidation_reason b)\<rparr>;
         ids = set (map belief_id table)
     in if new_id \<in> ids then Inl ConstraintViolation
        else (case supersedes_id row of
                None \<Rightarrow> Inr (fullBelief, table @ [row])
              | Some p \<Rightarrow>
                  if p \<in> ids \<or> p = new_id then Inr (fullBelief, table @ [row])
                  else Inl ConstraintViolation))"

definition getById :: "string \<Rightarrow> Belief list \<Rightarrow> Belief option" where
  "getById i table = map_option rowToBelief (find (\<lambda>row. belief_id row = i) table)"

text \<open>\<^verbatim>\<open>update\<close>: the SET clauses, one for each of the nine fields it looks at.\<close>

definition no_updates :: "BeliefChanges \<Rightarrow> bool" where
  "no_updates changes =
    (ch_text changes = None \<and> ch_confidence changes = None \<and> ch_evidence_ids changes = None
     \<and> ch_supporting_count changes = None \<and> ch_contradicting_count changes = None
     \<and> ch_last_evaluated changes = None \<and> ch_importance changes = None
     \<and> ch_tags changes = None \<and> ch_embedding changes = None)"

definition set_fields :: "BeliefChanges \<Rightarrow> Belief \<Rightarrow> Belief" where
  "set_fields changes row = row
    \<lparr>belief_text := (case ch_text changes of None \<Rightarrow> belief_text row | Some v \<Rightarrow> v),
     confidence := (case ch_confidence changes of None \<Rightarrow> confidence row | Some v \<Rightarrow> v),
     evidence_ids := (case ch_evidence_ids changes of None \<Rightarrow> evidence_ids row | Some v \<Rightarrow> v),
     supporting_count := (case ch_supporting_count changes of None \<Rightarrow> supporting_count row | Some v \<Rightarrow> v),
     contradicting_count := (case ch_contradicting_count changes of None \<Rightarrow> contradicting_count row | Some v \<Rightarrow> v),
     last_evaluated := (case ch_last_evaluated changes of None \<Rightarrow> last_evaluated row | Some v \<Rightarrow> v),
     importance := (case ch_importance changes of None \<Rightarrow> importance row | Some v \<Rightarrow> v),
     tags := (case ch_tags changes of None \<Rightarrow> tags row | Some v \<Rightarrow> v),
     embedding := (case ch_embedding changes of None \<Rightarrow> embedding row | Some v \<Rightarrow> Some v)\<rparr>"

definition update :: "string \<Rightarrow> BeliefChanges \<Rightarrow> Belief list \<Rightarrow> Belief option \<times> Belief list" where
  "update i changes table =
    (case getById i table of
       None \<Rightarrow> (None, table)
     | Some existing \<Rightarrow>
         if no_updates changes then (Some existing, table)
         else (let table' = map (\<lambda>row. if belief_id row = i then set_fields changes row else row) table
               in (getById i table', table')))"

text \<open>\<^verbatim>\<open>invalidate\<close>; \<open>now\<close> is \<^verbatim>\<open>Date.now()\<close>.\<close>

definition invalidate :: "string \<Rightarrow> string \<Rightarrow> int \<Rightarrow> Belief list \<Rightarrow> bool \<times> Belief list" where
  "invalidate i reason now table =
    (let hit = (\<lambda>row. belief_id row = i \<and> invalidated_at row = None);
         changes = length (filter hit table);
         table' = map (\<lambda>row. if hit row
                               then row\<lparr>invalidated_at := Some now, invalidation_reason := Some reason\<rparr>
                               else row) table
     in (changes > 0, table'))"

definition incrementContradicting :: "string \<Rightarrow> Belief list \<Rightarrow> Belief list" where
  "incrementContradicting i table =
    map (\<lambda>row. if belief_id row = i
                then row\<lparr>contradicting_count := contradicting_count row + 1\<rparr> else row) table"

definition incrementSupporting :: "string \<Rightarrow> Belief list \<Rightarrow> Belief list" where
  "incrementSupporting i table =
    map (\<lambda>row. if belief_id row = i
                then row\<lparr>supporting_count := supporting_count row + 1\<rparr> else row) table"

text \<open>\<^verbatim>\<open>adjustConfidence\<close>; \<open>config\<close> is what \<^verbatim>\<open>loadConfig()\<close> returns.\<close>

definition adjustConfidence :: "Config \<Rightarrow> string list \<Rightarrow> real \<Rightarrow> Belief list \<Rightarrow> Belief list" where
  "adjustConfidence config ids delta table =
    (if length ids = 0 then table
     else map (\<lambda>row. if belief_id row \<in> set ids
                      then row\<lparr>confidence := max (minConfidenceFloor config) (min 1.0 (confidence row + delta))\<rparr>
                      else row) table)"

text \<open>
  \<^verbatim>\<open>applyConfidenceDecay\<close>: \<open>decays\<close> is the WHERE clause, \<open>decay_row\<close> the SET clause on
  a row it selects; the result is \<^verbatim>\<open>result.changes\<close> and the table.
\<close>

definition decays :: "Config \<Rightarrow> Belief \<Rightarrow> bool" where
  "decays config row = (invalidated_at row = None \<and> confidence row > minConfidenceFloor config)"

definition decay_row :: "Config \<Rightarrow> sql_class \<Rightarrow> int \<Rightarrow> Belief \<Rightarrow> Belief" where
  "decay_row config cls now row =
    (if decays config row
     then row\<lparr>confidence :=
            max (minConfidenceFloor config)
                (confidence row - confidenceDecayPerDay config * elapsedDays cls now (last_evaluated row))\<rparr>
     else row)"

definition applyConfidenceDecay ::
  "Config \<Rightarrow> sql_class \<Rightarrow> int \<Rightarrow> Belief list \<Rightarrow> nat \<times> Belief list" where
  "applyConfidenceDecay config cls now table =
    (let changes = length (filter (decays config) table);
         table' = map (decay_row config cls now) table
     in (changes, table'))"

text \<open>The WHERE clauses on \<^verbatim>\<open>minConfidence\<close> and \<^verbatim>\<open>domain\<close>, shared by the two SELECTs.\<close>

definition where_options :: "SearchOptions \<Rightarrow> Belief list \<Rightarrow> Belief list" where
  "where_options options rows =
    (let rows1 = (case truthy (opt_minConfidence options) of
                    None \<Rightarrow> rows
                  | Some m \<Rightarrow> filter (\<lambda>row. confidence row \<ge> m) rows);
         rows2 = (case opt_domain options of
                    None \<Rightarrow> rows1
                  | Some d \<Rightarrow> filter (\<lambda>row. domain row = d) rows1)
     in rows2)"

definition limit_clause :: "SearchOptions \<Rightarrow> Belief list \<Rightarrow> Belief list" where
  "limit_clause options rows =
    (case truthy (opt_limit options) of None \<Rightarrow> rows | Some l \<Rightarrow> sql_limit l rows)"

definition getActive :: "SearchOptions \<Rightarrow> Belief list \<Rightarrow> Belief list" where
  "getActive options table =
    (let rows = where_options options (filter (\<lambda>row. invalidated_at row = None) table);
         ordered = sort_key (\<lambda>row. (- importance row, - confidence row)) rows
     in map rowToBelief (limit_clause options ordered))"

definition searchKeyword :: "fts_index \<Rightarrow> js_string \<Rightarrow> SearchOptions \<Rightarrow> Belief list \<Rightarrow> Belief list" where
  "searchKeyword fts query options table =
    (let matched = filter (fts_match fts query) table;
         rows0 = (if opt_activeOnly options \<noteq> Some False
                  then filter (\<lambda>row. invalidated_at row = None) matched else matched);
         rows = where_options options rows0;
         ordered = sort_key (fts_rank fts query) rows
     in map rowToBelief (limit_clause options ordered))"

text \<open>
  \<^verbatim>\<open>searchSemantic\<close>. \<open>score_all\<close> is \<^verbatim>\<open>beliefs.filter((b) => b.embedding).map(...)\<close>:
  a belief without an embedding is skipped, and the first throw of
  \<^verbatim>\<open>cosineSimilarity\<close> ends the call.
\<close>

fun score_all :: "real list \<Rightarrow> Belief list \<Rightarrow> error + BeliefSearchResult list" where
  "score_all queryEmbedding [] = Inr []"
| "score_all queryEmbedding (b # bs) =
    (case embedding b of
       None \<Rightarrow> score_all queryEmbedding bs
     | Some e \<Rightarrow>
         (case cosineSimilarity queryEmbedding e of
            Inl err \<Rightarrow> Inl err
          | Inr s \<Rightarrow>
              (case score_all queryEmbedding bs of
                 Inl err \<Rightarrow> Inl err
               | Inr rs \<Rightarrow> Inr (\<lparr>belief = b, score = s, matchType = semantic\<rparr> # rs))))"

text \<open>\<^verbatim>\<open>xs.sort((a, b) => b.score - a.score)\<close>: a stable sort, highest score first.\<close>

definition sort_by_score :: "BeliefSearchResult list \<Rightarrow> BeliefSearchResult list" where
  "sort_by_score rs = sort_key (\<lambda>r. - score r) rs"

definition searchSemantic ::
  "(js_string \<Rightarrow> js_string) \<Rightarrow> js_string \<Rightarrow> SearchOptions \<Rightarrow> Belief list
    \<Rightarrow> error + BeliefSearchResult list" where
  "searchSemantic lc query options table =
    (let queryEmbedding = generateEmbedding lc query default_dims;
         beliefs = getActive (options\<lparr>opt_limit := None\<rparr>) table
     in case score_all queryEmbedding beliefs of
          Inl e \<Rightarrow> Inl e
        | Inr scored \<Rightarrow> Inr (slice0 (limit_or_10 options) (sort_by_score scored)))"

text \<open>
  \<^verbatim>\<open>searchHybrid\<close>. \<^verbatim>\<open>new Map(pairs)\<close> sets the pairs in order, a later pair replacing an
  earlier one of the same key; of the value \<^verbatim>\<open>{belief, score}\<close> only the score is read.
\<close>

definition keyword_pairs :: "Belief list \<Rightarrow> (string \<times> real) list" where
  "keyword_pairs keywordResults =
    map (\<lambda>(i, b). (belief_id b, 1 - real i * 0.1)) (enumerate 0 keywordResults)"

definition new_Map :: "(string \<times> real) list \<Rightarrow> (string \<rightharpoonup> real)" where
  "new_Map pairs = fold (\<lambda>(k, v) m. m(k \<mapsto> v)) pairs Map.empty"

definition semantic_step ::
  "(string \<rightharpoonup> real) \<Rightarrow> BeliefSearchResult
    \<Rightarrow> string set \<times> BeliefSearchResult list \<Rightarrow> string set \<times> BeliefSearchResult list" where
  "semantic_step keywordMap result st =
    (case st of (seen, combined) \<Rightarrow>
       if belief_id (belief result) \<in> seen then (seen, combined)
       else (let keywordMatch = keywordMap (belief_id (belief result));
                 finalScore = (case keywordMatch of
                                 Some ks \<Rightarrow> (score result + ks) / 2
                               | None \<Rightarrow> score result)
             in (insert (belief_id (belief result)) seen,
                 combined @ [\<lparr>belief = belief result, score = finalScore,
                              matchType = (case keywordMatch of Some ks \<Rightarrow> hybrid | None \<Rightarrow> semantic)\<rparr>])))"

definition keyword_step ::
  "Belief \<Rightarrow> string set \<times> BeliefSearchResult list \<Rightarrow> string set \<times> BeliefSearchResult list" where
  "keyword_step b st =
    (case st of (seen, combined) \<Rightarrow>
       if belief_id b \<in> seen then (seen, combined)
       else (insert (belief_id b) seen,
             combined @ [\<lparr>belief = b, score = 0.5, matchType = keyword\<rparr>]))"

definition combine ::
  "Belief list \<Rightarrow> BeliefSearchResult list \<Rightarrow> BeliefSearchResult list" where
  "combine keywordResults semanticResults =
    (let keywordMap = new_Map (keyword_pairs keywordResults);
         st1 = fold (semantic_step keywordMap) semanticResults ({}, []);
         st2 = fold keyword_step keywordResults st1
     in snd st2)"

definition searchHybrid ::
  "(js_string \<Rightarrow> js_string) \<Rightarrow> fts_index \<Rightarrow> js_string \<Rightarrow> SearchOptions \<Rightarrow> Belief list
    \<Rightarrow> error + BeliefSearchResult list" where
  "searchHybrid lc fts query options table =
    (let keywordResults = searchKeyword fts query (options\<lparr>opt_limit := Some (limit_or_10 options * 2)\<rparr>) table
     in case searchSemantic lc query (options\<lparr>opt_limit := Some (limit_or_10 options * 2)\<rparr>) table of
          Inl e \<Rightarrow> Inl e
        | Inr semanticResults \<Rightarrow>
            Inr (slice0 (limit_or_10 options)
                   (sort_by_score (combine keywordResults semanticResults))))"

text \<open>The calls that write to the table, and the table after a call (a throw writes nothing).\<close>

datatype repo_call =
  Create string Belief
| Update string BeliefChanges
| Invalidate string string int
| IncrementContradicting string
| IncrementSupporting string
| AdjustConfidence "string list" real
| ApplyConfidenceDecay sql_class int

fun run_call :: "(js_string \<Rightarrow> js_string) \<Rightarrow> Config \<Rightarrow> repo_call \<Rightarrow> Belief list \<Rightarrow> Belief list" where
  "run_call lc config (Create new_id b) table =
    (case create lc new_id b table of Inl e \<Rightarrow> table | Inr (fullBelief, table') \<Rightarrow> table')"
| "run_call lc config (Update i changes) table = snd (update i changes table)"
| "run_call lc config (Invalidate i reason now) table = snd (invalidate i reason now table)"
| "run_call lc config (IncrementContradicting i) table = incrementContradicting i table"
| "run_call lc config (IncrementSupporting i) table = incrementSupporting i table"
| "run_call lc config (AdjustConfidence ids delta) table = adjustConfidence config ids delta table"
| "run_call lc config (ApplyConfidenceDecay cls now) table = snd (applyConfidenceDecay config cls now table)"

text \<open>The range the specification gives the confidence of a stored belief.\<close>

definition conf_in_range :: "Config \<Rightarrow> Belief \<Rightarrow> bool" where
  "conf_in_range config row =
    (minConfidenceFloor config \<le> confidence row \<and> confidence row \<le> 1)"

text \<open>A belief and an empty change set, for the concrete instances below.\<close>

definition sample_belief :: Belief where
  "sample_belief =
    \<lparr>belief_id = ''b1'', belief_text = [104, 105], domain = user_preference, confidence = 0.9,
     evidence_ids = [], supporting_count = 0, contradicting_count = 0, derived_at = 0,
     last_evaluated = 0, supersedes_id = None, invalidated_at = None,
     invalidation_reason = None, embedding = Some [1, 0], importance = 5, tags = []\<rparr>"

definition no_changes :: BeliefChanges where
  "no_changes =
    \<lparr>ch_id = None, ch_text = None, ch_domain = None, ch_confidence = None,
     ch_evidence_ids = None, ch_supporting_count = None, ch_contradicting_count = None,
     ch_derived_at = None, ch_last_evaluated = None, ch_supersedes_id = None,
     ch_invalidated_at = None, ch_invalidation_reason = None, ch_embedding = None,
     ch_importance = None, ch_tags = None\<rparr>"

definition no_options :: SearchOptions where
  "no_options =
    \<lparr>opt_limit = None, opt_minConfidence = None, opt_domain = None, opt_activeOnly = None\<rparr>"

text \<open>
  What a later table keeps of an earlier one: every row that was invalidated is still at
  its place, with its identifier, \<open>invalidated_at\<close> and \<open>invalidation_reason\<close>.
\<close>

definition keeps_invalidation :: "Belief list \<Rightarrow> Belief list \<Rightarrow> bool" where
  "keeps_invalidation table table' =
    (length table \<le> length table' \<and>
     (\<forall>k<length table. invalidated_at (table ! k) \<noteq> None \<longrightarrow>
        belief_id (table' ! k) = belief_id (table ! k)
        \<and> invalidated_at (table' ! k) = invalidated_at (table ! k)
        \<and> invalidation_reason (table' ! k) = invalidation_reason (table ! k)))"

text \<open>The rows \<^verbatim>\<open>getActive\<close> selects, in its order, before the LIMIT clause.\<close>

definition active_ordered :: "SearchOptions \<Rightarrow> Belief list \<Rightarrow> Belief list" where
  "active_ordered options table =
    sort_key (\<lambda>row. (- importance row, - confidence row))
      (where_options options (filter (\<lambda>row. invalidated_at row = None) table))"

text \<open>A table of two active rows and an invalidated one, for the concrete instances.\<close>

definition sample_table :: "Belief list" where
  "sample_table =
    [sample_belief,
     sample_belief\<lparr>belief_id := ''b2'', importance := 7, confidence := - 0.5\<rparr>,
     sample_belief\<lparr>belief_id := ''b3'', invalidated_at := Some 3\<rparr>]"

text \<open>The identifier a search result carries, and the invariant of the two merging loops.\<close>

definition rid :: "BeliefSearchResult \<Rightarrow> string" where
  "rid r = belief_id (belief r)"

definition merged :: "string set \<times> BeliefSearchResult list \<Rightarrow> bool" where
  "merged st = (fst st = set (map rid (snd st)) \<and> distinct (map rid (snd st)))"

text \<open>The value a semantic result is pushed with, for a given keyword map.\<close>

definition semantic_result :: "(string \<rightharpoonup> real) \<Rightarrow> BeliefSearchResult \<Rightarrow> BeliefSearchResult" where
  "semantic_result keywordMap r =
    (case keywordMap (belief_id (belief r)) of
       Some ks \<Rightarrow> \<lparr>belief = belief r, score = (score r + ks) / 2, matchType = hybrid\<rparr>
     | None \<Rightarrow> \<lparr>belief = belief r, score = score r, matchType = semantic\<rparr>)"

text \<open>
  The hybrid search in the words of the specification. The requested limit is
  \<open>limit_or_10\<close> (10 by default). The i-th keyword hit, counted from 0, has the positional
  score \<open>1 - i * 0.1\<close>; a semantic hit that is also a keyword hit gets the average of its
  score and its positional score and the tag hybrid, any other semantic hit keeps its
  score and the tag semantic; the keyword hits that are no semantic hits follow with
  score 0.5 and the tag keyword; the list is sorted by score, highest first, and cut to
  the requested limit.
\<close>

fun position :: "string \<Rightarrow> Belief list \<Rightarrow> nat option" where
  "position i [] = None"
| "position i (b # bs) = (if belief_id b = i then Some 0 else map_option Suc (position i bs))"

definition spec_positional_score :: "Belief list \<Rightarrow> string \<Rightarrow> real option" where
  "spec_positional_score keywordHits i = map_option (\<lambda>k. 1 - real k * 0.1) (position i keywordHits)"

definition spec_semantic_hit :: "Belief list \<Rightarrow> BeliefSearchResult \<Rightarrow> BeliefSearchResult" where
  "spec_semantic_hit keywordHits r =
    (case spec_positional_score keywordHits (belief_id (belief r)) of
       Some p \<Rightarrow> \<lparr>belief = belief r, score = (score r + p) / 2, matchType = hybrid\<rparr>
     | None \<Rightarrow> \<lparr>belief = belief r, score = score r, matchType = semantic\<rparr>)"

definition spec_keyword_only :: "Belief list \<Rightarrow> BeliefSearchResult list \<Rightarrow> BeliefSearchResult list" where
  "spec_keyword_only keywordHits semanticHits =
    map (\<lambda>b. \<lparr>belief = b, score = 0.5, matchType = keyword\<rparr>)
      (filter (\<lambda>b. belief_id b \<notin> set (map (\<lambda>r. belief_id (belief r)) semanticHits)) keywordHits)"


text \<open>
  For the concrete instances: an index that matches every row, and the row \<^verbatim>\<open>create\<close>
  stores for the sample belief when it is given no embedding.
\<close>

definition match_all :: fts_index where
  "match_all = \<lparr>fts_match = \<lambda>query row. True, fts_rank = \<lambda>query row. 0\<rparr>"

definition stored_sample :: Belief where
  "stored_sample =
    sample_belief\<lparr>embedding := Some (generateEmbedding asciiLower [104, 105] default_dims)\<rparr>"

text \<open>A table of \<open>n\<close> such rows, active and with distinct identifiers.\<close>

definition sample_rows :: "nat \<Rightarrow> Belief list" where
  "sample_rows n = map (\<lambda>k. stored_sample\<lparr>belief_id := replicate (Suc k) CHR ''r''\<rparr>) [0..<n]"

section \<open>Properties of the embedding\<close>

lemma length_add_at: "length (add_at e k v) = length e"
  by (simp add: add_at_def)

lemma length_embed_char: "length (embed_char s d i e) = length e"
  by (simp add: embed_char_def Let_def length_add_at)

lemma length_fold_embed: "length (fold (embed_char s d) js e) = length e"
  by (induction js arbitrary: e) (simp_all add: length_embed_char)

lemma nonneg_add_at:
  assumes "\<forall>x\<in>set e. 0 \<le> x" and "0 \<le> v"
  shows "\<forall>x\<in>set (add_at e k v). 0 \<le> x"
proof (cases "k < length e")
  case True
  have "set (e[k := e ! k + v]) \<subseteq> insert (e ! k + v) (set e)"
    by (rule set_update_subset_insert)
  moreover have "0 \<le> e ! k + v"
    using assms True by (simp add: add_nonneg_nonneg)
  ultimately show ?thesis
    using assms True by (auto simp: add_at_def)
next
  case False
  then show ?thesis using assms by (simp add: add_at_def)
qed

lemma sum_list_update_real:
  fixes e :: "real list"
  shows "k < length e \<Longrightarrow> sum_list (e[k := x]) = sum_list e - e ! k + x"
proof (induction e arbitrary: k)
  case Nil
  then show ?case by simp
next
  case (Cons a e)
  then show ?case by (cases k) simp_all
qed

lemma sum_add_at_in:
  assumes "k < length e"
  shows "sum_list (add_at e k v) = sum_list e + v"
  using assms by (simp add: add_at_def sum_list_update_real)

lemma sum_add_at:
  assumes "0 \<le> v"
  shows "sum_list e \<le> sum_list (add_at e k v)"
proof (cases "k < length e")
  case True
  then show ?thesis using assms by (simp add: sum_add_at_in)
next
  case False
  then show ?thesis by (simp add: add_at_def)
qed

lemma nonneg_embed_char:
  assumes "\<forall>x\<in>set e. 0 \<le> x"
  shows "\<forall>x\<in>set (embed_char s d i e). 0 \<le> x"
proof -
  let ?e1 = "add_at e ((s ! i * (i + 1)) mod d) (1 / real (i + 1))"
  let ?e2 = "if i > 0 then add_at ?e1 ((s ! (i - 1) * 31 + s ! i) mod d) (0.5 / real (i + 1)) else ?e1"
  let ?e3 = "if s ! i = 32 \<and> i + 1 < length s then add_at ?e2 ((s ! (i + 1) * 17 + i) mod d) 0.3 else ?e2"
  have 1: "\<forall>x\<in>set ?e1. 0 \<le> x" using assms by (rule nonneg_add_at) simp
  have "\<forall>x\<in>set (add_at ?e1 ((s ! (i - 1) * 31 + s ! i) mod d) (0.5 / real (i + 1))). 0 \<le> x"
    using 1 by (rule nonneg_add_at) simp
  with 1 have 2: "\<forall>x\<in>set ?e2. 0 \<le> x" by presburger
  have "\<forall>x\<in>set (add_at ?e2 ((s ! (i + 1) * 17 + i) mod d) 0.3). 0 \<le> x"
    using 2 by (rule nonneg_add_at) simp
  with 2 have 3: "\<forall>x\<in>set ?e3. 0 \<le> x" by presburger
  have "embed_char s d i e = ?e3" by (simp add: embed_char_def Let_def)
  then show ?thesis using 3 by simp
qed

lemma sum_embed_char:
  "sum_list e \<le> sum_list (embed_char s d i e)"
proof -
  define e1 where "e1 = add_at e ((s ! i * (i + 1)) mod d) (1 / real (i + 1))"
  define e2 where "e2 = (if i > 0 then add_at e1 ((s ! (i - 1) * 31 + s ! i) mod d) (0.5 / real (i + 1)) else e1)"
  define e3 where "e3 = (if s ! i = 32 \<and> i + 1 < length s then add_at e2 ((s ! (i + 1) * 17 + i) mod d) 0.3 else e2)"
  have 1: "sum_list e \<le> sum_list e1" unfolding e1_def by (rule sum_add_at) simp
  have 2: "sum_list e1 \<le> sum_list e2" unfolding e2_def by (simp add: sum_add_at)
  have 3: "sum_list e2 \<le> sum_list e3" unfolding e3_def by (simp add: sum_add_at)
  have "embed_char s d i e = e3" by (simp add: embed_char_def Let_def e1_def e2_def e3_def)
  then show ?thesis using 1 2 3 by simp
qed

lemma sum_embed_first:
  assumes "0 < d" and "length e = d"
  shows "sum_list e + 1 \<le> sum_list (embed_char s d 0 e)"
proof -
  define e1 where "e1 = add_at e ((s ! 0 * (0 + 1)) mod d) (1 / real (0 + 1))"
  define e3 where "e3 = (if s ! 0 = 32 \<and> 0 + 1 < length s then add_at e1 ((s ! (0 + 1) * 17 + 0) mod d) 0.3 else e1)"
  have "(s ! 0 * (0 + 1)) mod d < length e" using assms by simp
  then have 1: "sum_list e1 = sum_list e + 1" unfolding e1_def by (simp add: sum_add_at_in)
  have 3: "sum_list e1 \<le> sum_list e3" unfolding e3_def by (simp add: sum_add_at)
  have "embed_char s d 0 e = e3" by (simp add: embed_char_def Let_def e1_def e3_def)
  then show ?thesis using 1 3 by simp
qed

lemma fold_embed_invariant:
  assumes "\<forall>x\<in>set e. 0 \<le> x"
  shows "(\<forall>x\<in>set (fold (embed_char s d) js e). 0 \<le> x)
         \<and> sum_list e \<le> sum_list (fold (embed_char s d) js e)"
  using assms
proof (induction js arbitrary: e)
  case Nil
  then show ?case by simp
next
  case (Cons j js)
  have nn: "\<forall>x\<in>set (embed_char s d j e). 0 \<le> x"
    using Cons.prems by (rule nonneg_embed_char)
  have le: "sum_list e \<le> sum_list (embed_char s d j e)"
    by (rule sum_embed_char)
  from Cons.IH [OF nn] have
    a: "\<forall>x\<in>set (fold (embed_char s d) js (embed_char s d j e)). 0 \<le> x" and
    b: "sum_list (embed_char s d j e) \<le> sum_list (fold (embed_char s d) js (embed_char s d j e))"
    by blast+
  from le b have "sum_list e \<le> sum_list (fold (embed_char s d) js (embed_char s d j e))"
    by (rule order_trans)
  with a show ?case by simp
qed

lemma foldl_squares: "foldl (\<lambda>sum v. sum + v * v) a e = a + (\<Sum>x\<leftarrow>e. x * x)"
  by (induction e arbitrary: a) (simp_all add: algebra_simps)

lemma squares_pos:
  assumes "\<forall>x\<in>set e. (0::real) \<le> x" and "0 < sum_list e"
  shows "0 < (\<Sum>x\<leftarrow>e. x * x)"
  using assms
proof (induction e)
  case Nil
  then show ?case by simp
next
  case (Cons a e)
  have sq: "0 \<le> (\<Sum>x\<leftarrow>e. x * x)" by (rule sum_list_nonneg) auto
  show ?case
  proof (cases "0 < a")
    case True
    then have "0 < a * a" by simp
    then show ?thesis using sq by simp
  next
    case False
    then have "a = 0" using Cons.prems by simp
    then show ?thesis using Cons by simp
  qed
qed

lemma l2norm_scaled:
  assumes "0 < (\<Sum>x\<leftarrow>e. x * x)"
  shows "l2norm (map (\<lambda>v. v / sqrt (\<Sum>x\<leftarrow>e. x * x)) e) = 1"
proof -
  let ?S = "\<Sum>x\<leftarrow>e. x * x"
  have "(\<Sum>x\<leftarrow>e. (x / sqrt ?S) * (x / sqrt ?S)) = (\<Sum>x\<leftarrow>e. (x * x) * (1 / ?S))"
    using assms by (intro arg_cong [where f = sum_list] map_cong refl) (simp add: field_simps)
  also have "\<dots> = ?S * (1 / ?S)"
    by (simp only: sum_list_mult_const)
  also have "\<dots> = 1" using assms by simp
  finally show ?thesis by (simp add: l2norm_def comp_def)
qed

lemma embedding_squares_pos:
  assumes "0 < d" and "s \<noteq> []"
  shows "0 < (\<Sum>x\<leftarrow>fold (embed_char s d) [0..<length s] (replicate d 0). x * x)"
proof -
  let ?e0 = "replicate d (0::real)"
  let ?e1 = "embed_char s d 0 ?e0"
  have upt: "[0..<length s] = 0 # [1..<length s]"
    using assms(2) by (simp add: upt_conv_Cons)
  have nn0: "\<forall>x\<in>set ?e0. 0 \<le> x" by simp
  have nn1: "\<forall>x\<in>set ?e1. 0 \<le> x" using nn0 by (rule nonneg_embed_char)
  have "sum_list ?e0 + 1 \<le> sum_list ?e1"
    using assms(1) by (intro sum_embed_first) simp_all
  then have s1: "1 \<le> sum_list ?e1" by (simp add: sum_list_replicate)
  from fold_embed_invariant [OF nn1, of s d "[1..<length s]"] s1
  have "(\<forall>x\<in>set (fold (embed_char s d) [1..<length s] ?e1). 0 \<le> x)"
    and "0 < sum_list (fold (embed_char s d) [1..<length s] ?e1)"
    by auto
  then have "0 < (\<Sum>x\<leftarrow>fold (embed_char s d) [1..<length s] ?e1. x * x)"
    by (rule squares_pos)
  then show ?thesis by (simp add: upt del: upt_Suc)
qed

lemma fold_cosine_take:
  assumes "length a = length b"
  shows "n \<le> length a \<Longrightarrow>
    fold (cosine_step a b) [0..<n] (0, 0, 0) =
      (dot (take n a) (take n b), (\<Sum>x\<leftarrow>take n a. x * x), (\<Sum>x\<leftarrow>take n b. x * x))"
proof (induction n)
  case 0
  then show ?case by (simp add: dot_def)
next
  case (Suc n)
  then have n: "n < length a" "n < length b" using assms by simp_all
  have za: "zip (take n a @ [a ! n]) (take n b @ [b ! n]) = zip (take n a) (take n b) @ [(a ! n, b ! n)]"
    using n by simp
  show ?case
    using Suc n
    by (simp add: take_Suc_conv_app_nth cosine_step_def dot_def za del: zip_append)
qed

lemma cosineSimilarity_eq:
  assumes "length a = length b"
  shows "cosineSimilarity a b =
    (if l2norm a * l2norm b = 0 then Inr 0 else Inr (dot a b / (l2norm a * l2norm b)))"
  using assms fold_cosine_take [OF assms, of "length a"]
  by (simp add: cosineSimilarity_def l2norm_def Let_def)

lemma dot_self: "dot v v = (\<Sum>x\<leftarrow>v. x * x)"
  by (simp add: dot_def zip_same_conv_map comp_def)

lemma squares_nonneg: "0 \<le> (\<Sum>x\<leftarrow>v. x * (x::real))"
  by (rule sum_list_nonneg) auto

lemma l2norm_mult_self: "l2norm v * l2norm v = dot v v"
  by (simp add: l2norm_def dot_self squares_nonneg)

lemma cosineSimilarity_self: "l2norm v \<noteq> 0 \<Longrightarrow> cosineSimilarity v v = Inr 1"
proof -
  assume nz: "l2norm v \<noteq> 0"
  have "cosineSimilarity v v = Inr (dot v v / (l2norm v * l2norm v))"
    using nz by (simp add: cosineSimilarity_eq)
  also have "dot v v / (l2norm v * l2norm v) = 1"
    using nz by (simp add: l2norm_mult_self [symmetric])
  finally show "cosineSimilarity v v = Inr 1" .
qed




































lemma generateEmbedding_length: "length (generateEmbedding lc t dims) = dims"
  by (simp add: generateEmbedding_def Let_def length_fold_embed)

lemma generateEmbedding_empty:
  "lc t = [] \<Longrightarrow> generateEmbedding lc t dims = replicate dims 0"
  by (simp add: generateEmbedding_def Let_def foldl_squares sum_list_replicate)

lemma generateEmbedding_unit:
  assumes "0 < dims" and "lc t \<noteq> []"
  shows "l2norm (generateEmbedding lc t dims) = 1"
proof -
  let ?e = "fold (embed_char (lc t) dims) [0..<length (lc t)] (replicate dims 0)"
  have pos: "0 < (\<Sum>x\<leftarrow>?e. x * x)"
    using assms by (rule embedding_squares_pos)
  then have "0 < sqrt (\<Sum>x\<leftarrow>?e. x * x)" by simp
  then have "generateEmbedding lc t dims = map (\<lambda>v. v / sqrt (\<Sum>x\<leftarrow>?e. x * x)) ?e"
    by (simp add: generateEmbedding_def Let_def foldl_squares)
  then show ?thesis using l2norm_scaled [OF pos] by simp
qed

text \<open>
  Claim C6. \<^verbatim>\<open>generateEmbedding\<close> depends on its text only through the lower-cased text;
  its result has \<open>dims\<close> components (384 by default); for a non-empty text and a
  positive \<open>dims\<close> the result has L2 norm 1, and for the empty text it is the zero vector.
  The hypothesis is the one fact about \<^verbatim>\<open>toLowerCase\<close> that is used: it maps the empty
  string, and only it, to the empty string.
\<close>

theorem generateEmbedding_spec:
  assumes "\<And>s. lc s = [] \<longleftrightarrow> s = []"
  shows "(lc t1 = lc t2 \<longrightarrow> generateEmbedding lc t1 dims = generateEmbedding lc t2 dims)
         \<and> length (generateEmbedding lc t dims) = dims
         \<and> length (generateEmbedding lc t default_dims) = 384
         \<and> (t \<noteq> [] \<and> 0 < dims \<longrightarrow> l2norm (generateEmbedding lc t dims) = 1)
         \<and> (t = [] \<longrightarrow> generateEmbedding lc t dims = replicate dims 0)"
proof (intro conjI impI)
  assume "lc t1 = lc t2"
  then show "generateEmbedding lc t1 dims = generateEmbedding lc t2 dims"
    by (simp add: generateEmbedding_def)
next
  show "length (generateEmbedding lc t dims) = dims"
    by (rule generateEmbedding_length)
next
  show "length (generateEmbedding lc t default_dims) = 384"
    by (simp add: generateEmbedding_length default_dims_def)
next
  assume "t \<noteq> [] \<and> 0 < dims"
  then show "l2norm (generateEmbedding lc t dims) = 1"
    using assms by (intro generateEmbedding_unit) simp_all
next
  assume "t = []"
  then show "generateEmbedding lc t dims = replicate dims 0"
    using assms by (intro generateEmbedding_empty) simp
qed

lemma asciiLower_empty: "asciiLower s = [] \<longleftrightarrow> s = []"
  by (simp add: asciiLower_def)

theorem generateEmbedding_spec_witness:
  "asciiLower [72, 105] = asciiLower [104, 105]
   \<and> generateEmbedding asciiLower [72, 105] 384 = generateEmbedding asciiLower [104, 105] 384
   \<and> length (generateEmbedding asciiLower [72, 105] 384) = 384
   \<and> l2norm (generateEmbedding asciiLower [72, 105] 384) = 1
   \<and> generateEmbedding asciiLower [] 384 = replicate 384 0"
proof -
  have lo: "asciiLower [72, 105] = asciiLower [104, 105]"
    by (simp add: asciiLower_def)
  have ne: "[72, 105] \<noteq> ([]::nat list)" "0 < (384::nat)"
    by simp_all
  note a = generateEmbedding_spec [of asciiLower "[72, 105]" "[104, 105]" 384 "[72, 105]", OF asciiLower_empty]
  note b = generateEmbedding_spec [of asciiLower "[]" "[]" 384 "[]", OF asciiLower_empty]
  from lo ne a b show ?thesis by blast
qed

section \<open>Confidence: decay and range\<close>

lemma sql_int_div_whole: "sql_int_div (k * dayInMs) dayInMs = k"
proof -
  have "sgn (k * 86400000) * (\<bar>k * 86400000\<bar> div 86400000) = sgn k * \<bar>k\<bar>"
    by (simp add: sgn_mult abs_mult)
  then show ?thesis
    by (simp add: sql_int_div_def dayInMs_def mult_sgn_abs)
qed

lemma elapsedDays_whole: "elapsedDays cls (le + k * dayInMs) le = real_of_int k"
proof (cases cls)
  case SqlInteger
  then show ?thesis by (simp add: sql_int_div_whole)
next
  case SqlReal
  then show ?thesis by (simp add: dayInMs_def)
qed

lemma elapsedDays_nonneg:
  assumes "le \<le> now"
  shows "0 \<le> elapsedDays cls now le"
proof (cases cls)
  case SqlInteger
  have "0 \<le> sql_int_div (now - le) dayInMs"
    unfolding sql_int_div_def
    using assms by (simp add: dayInMs_def sgn_if pos_imp_zdiv_nonneg_iff)
  then show ?thesis using SqlInteger by simp
next
  case SqlReal
  then show ?thesis using assms by (simp add: dayInMs_def)
qed

lemma snd_applyConfidenceDecay:
  "snd (applyConfidenceDecay config cls now table) = map (decay_row config cls now) table"
  by (simp add: applyConfidenceDecay_def Let_def)

lemma fst_applyConfidenceDecay:
  "fst (applyConfidenceDecay config cls now table) = length (filter (decays config) table)"
  by (simp add: applyConfidenceDecay_def Let_def)

lemma decay_scenario:
  assumes "confidenceDecayPerDay config = 0.01" and "minConfidenceFloor config \<le> 0.8"
    and "confidence b = 0.9" and "invalidated_at b = None"
    and "last_evaluated b = now - 10 * dayInMs"
  shows "applyConfidenceDecay config cls now [b] = (1, [b\<lparr>confidence := 0.8\<rparr>])"
proof -
  have "elapsedDays cls ((now - 10 * dayInMs) + 10 * dayInMs) (now - 10 * dayInMs) = real_of_int 10"
    by (rule elapsedDays_whole)
  then have e: "elapsedDays cls now (last_evaluated b) = 10"
    using assms(5) by simp
  have d: "decays config b" using assms by (simp add: decays_def)
  show ?thesis
    using assms d e by (simp add: applyConfidenceDecay_def Let_def decay_row_def)
qed

lemma elapsedDays_truncated:
  "elapsedDays SqlInteger now le =
    real_of_int (if le \<le> now then \<lfloor>(real_of_int now - real_of_int le) / 86400000\<rfloor>
                 else \<lceil>(real_of_int now - real_of_int le) / 86400000\<rceil>)"
proof (cases "le \<le> now")
  case True
  have "\<lfloor>real_of_int (now - le) / real_of_int 86400000\<rfloor> = (now - le) div 86400000"
    by (rule floor_divide_of_int_eq)
  moreover have "sql_int_div (now - le) dayInMs = (now - le) div 86400000"
    using True by (simp add: sql_int_div_def dayInMs_def sgn_if)
  ultimately show ?thesis using True by simp
next
  case False
  have "\<lfloor>real_of_int (le - now) / real_of_int 86400000\<rfloor> = (le - now) div 86400000"
    by (rule floor_divide_of_int_eq)
  moreover have "(real_of_int now - real_of_int le) / 86400000
      = - (real_of_int (le - now) / real_of_int 86400000)"
    by (simp add: field_simps)
  ultimately have "\<lceil>(real_of_int now - real_of_int le) / 86400000\<rceil> = - ((le - now) div 86400000)"
    by (simp only: ceiling_def minus_minus)
  moreover have "sql_int_div (now - le) dayInMs = - ((le - now) div 86400000)"
    using False by (simp add: sql_int_div_def dayInMs_def sgn_if)
  ultimately show ?thesis using False by simp
qed

lemma decay_row_truncated:
  "decay_row config SqlInteger now row =
    (if invalidated_at row = None \<and> confidence row > minConfidenceFloor config
     then row\<lparr>confidence :=
            max (minConfidenceFloor config)
                (confidence row - confidenceDecayPerDay config *
                   real_of_int
                     (if last_evaluated row \<le> now
                      then \<lfloor>(real_of_int now - real_of_int (last_evaluated row)) / 86400000\<rfloor>
                      else \<lceil>(real_of_int now - real_of_int (last_evaluated row)) / 86400000\<rceil>))\<rparr>
     else row)"
  unfolding decay_row_def decays_def elapsedDays_truncated ..

text \<open>
  Claim C2, amended. \<^verbatim>\<open>applyConfidenceDecay\<close> keeps the rows in place,
  returns the number of active rows whose confidence exceeds the floor, sets the confidence
  of each such row to \<open>max floor (confidence - decayPerDay * elapsedDays)\<close> and leaves every
  other row as it is. \<open>elapsedDays\<close> is the quotient \<open>(now - last_evaluated) / dayInMs\<close>
  \<^emph>\<open>truncated towards zero to a whole number of days\<close>, both operands being INTEGERs: its
  floor when \<open>last_evaluated\<close> is not in the future, its ceiling when it is. One day is
  86400000 milliseconds. A belief at 0.9, evaluated exactly 10 days ago, with 0.01 a day,
  ends at 0.8. (Under the REAL reading of the binding, which the program does not take,
  the quotient is the untruncated one.)
\<close>

theorem applyConfidenceDecay_whole_days:
  "length (snd (applyConfidenceDecay config SqlInteger now table)) = length table
   \<and> fst (applyConfidenceDecay config SqlInteger now table) =
       length (filter (\<lambda>row. invalidated_at row = None \<and> confidence row > minConfidenceFloor config) table)
   \<and> (\<forall>i<length table.
        snd (applyConfidenceDecay config SqlInteger now table) ! i =
          (if invalidated_at (table ! i) = None \<and> confidence (table ! i) > minConfidenceFloor config
           then (table ! i)\<lparr>confidence :=
                  max (minConfidenceFloor config)
                      (confidence (table ! i) - confidenceDecayPerDay config *
                         real_of_int
                           (if last_evaluated (table ! i) \<le> now
                            then \<lfloor>(real_of_int now - real_of_int (last_evaluated (table ! i))) / 86400000\<rfloor>
                            else \<lceil>(real_of_int now - real_of_int (last_evaluated (table ! i))) / 86400000\<rceil>))\<rparr>
           else table ! i))
   \<and> dayInMs = 86400000
   \<and> elapsedDays SqlReal now le = (real_of_int now - real_of_int le) / 86400000
   \<and> (confidenceDecayPerDay config = 0.01 \<and> minConfidenceFloor config \<le> 0.8
        \<and> confidence b = 0.9 \<and> invalidated_at b = None \<and> last_evaluated b = now - 10 * dayInMs
       \<longrightarrow> applyConfidenceDecay config SqlInteger now [b] = (1, [b\<lparr>confidence := 0.8\<rparr>]))"
proof (intro conjI)
  show "length (snd (applyConfidenceDecay config SqlInteger now table)) = length table"
    by (simp add: snd_applyConfidenceDecay)
next
  show "fst (applyConfidenceDecay config SqlInteger now table) =
      length (filter (\<lambda>row. invalidated_at row = None \<and> confidence row > minConfidenceFloor config) table)"
    by (simp add: applyConfidenceDecay_def Let_def decays_def [abs_def])
next
  show "\<forall>i<length table.
        snd (applyConfidenceDecay config SqlInteger now table) ! i =
          (if invalidated_at (table ! i) = None \<and> confidence (table ! i) > minConfidenceFloor config
           then (table ! i)\<lparr>confidence :=
                  max (minConfidenceFloor config)
                      (confidence (table ! i) - confidenceDecayPerDay config *
                         real_of_int
                           (if last_evaluated (table ! i) \<le> now
                            then \<lfloor>(real_of_int now - real_of_int (last_evaluated (table ! i))) / 86400000\<rfloor>
                            else \<lceil>(real_of_int now - real_of_int (last_evaluated (table ! i))) / 86400000\<rceil>))\<rparr>
           else table ! i)"
  proof (intro allI impI)
    fix i assume "i < length table"
    then have "snd (applyConfidenceDecay config SqlInteger now table) ! i
        = decay_row config SqlInteger now (table ! i)"
      by (simp add: snd_applyConfidenceDecay)
    then show "snd (applyConfidenceDecay config SqlInteger now table) ! i =
          (if invalidated_at (table ! i) = None \<and> confidence (table ! i) > minConfidenceFloor config
           then (table ! i)\<lparr>confidence :=
                  max (minConfidenceFloor config)
                      (confidence (table ! i) - confidenceDecayPerDay config *
                         real_of_int
                           (if last_evaluated (table ! i) \<le> now
                            then \<lfloor>(real_of_int now - real_of_int (last_evaluated (table ! i))) / 86400000\<rfloor>
                            else \<lceil>(real_of_int now - real_of_int (last_evaluated (table ! i))) / 86400000\<rceil>))\<rparr>
           else table ! i)"
      by (simp only: decay_row_truncated)
  qed
next
  show "dayInMs = 86400000" by (simp add: dayInMs_def)
next
  show "elapsedDays SqlReal now le = (real_of_int now - real_of_int le) / 86400000"
    by (simp add: dayInMs_def)
next
  show "confidenceDecayPerDay config = 0.01 \<and> minConfidenceFloor config \<le> 0.8
        \<and> confidence b = 0.9 \<and> invalidated_at b = None \<and> last_evaluated b = now - 10 * dayInMs
       \<longrightarrow> applyConfidenceDecay config SqlInteger now [b] = (1, [b\<lparr>confidence := 0.8\<rparr>])"
    using decay_scenario [of config b now SqlInteger] by blast
qed

text \<open>
  Claim C2, as stated, with \<open>elapsedDays = (now - last_evaluated) / one day\<close> not
  truncated, fails on a fraction of a day: a belief at 0.9 evaluated 10.5 days ago ends at
  0.8 where the claim's formula gives 0.795, and one evaluated half a day ago keeps 0.9
  (and is counted as touched) where the formula gives 0.895.
\<close>

theorem applyConfidenceDecay_fraction_counterexample:
  "applyConfidenceDecay DEFAULT_CONFIG SqlInteger 907200000 [sample_belief]
     = (1, [sample_belief\<lparr>confidence := 0.8\<rparr>])
   \<and> max (minConfidenceFloor DEFAULT_CONFIG)
         (confidence sample_belief - confidenceDecayPerDay DEFAULT_CONFIG *
            ((907200000 - real_of_int (last_evaluated sample_belief)) / real_of_int dayInMs)) = 0.795
   \<and> applyConfidenceDecay DEFAULT_CONFIG SqlInteger 43200000 [sample_belief] = (1, [sample_belief])
   \<and> max (minConfidenceFloor DEFAULT_CONFIG)
         (confidence sample_belief - confidenceDecayPerDay DEFAULT_CONFIG *
            ((43200000 - real_of_int (last_evaluated sample_belief)) / real_of_int dayInMs)) = 0.895"
  by (simp add: applyConfidenceDecay_def decay_row_def decays_def sql_int_div_def dayInMs_def
      DEFAULT_CONFIG_def sample_belief_def Let_def)

theorem applyConfidenceDecay_whole_days_witness:
  "applyConfidenceDecay DEFAULT_CONFIG SqlInteger 864000000 [sample_belief]
     = (1, [sample_belief\<lparr>confidence := 0.8\<rparr>])
   \<and> snd (applyConfidenceDecay DEFAULT_CONFIG SqlInteger 907200000
            [sample_belief, sample_belief\<lparr>invalidated_at := Some 5\<rparr>, sample_belief\<lparr>confidence := 0.3\<rparr>])
     = [sample_belief\<lparr>confidence := 0.8\<rparr>, sample_belief\<lparr>invalidated_at := Some 5\<rparr>,
        sample_belief\<lparr>confidence := 0.3\<rparr>]
   \<and> fst (applyConfidenceDecay DEFAULT_CONFIG SqlInteger 907200000
            [sample_belief, sample_belief\<lparr>invalidated_at := Some 5\<rparr>, sample_belief\<lparr>confidence := 0.3\<rparr>])
     = 1"
proof -
  let ?t = "[sample_belief, sample_belief\<lparr>invalidated_at := Some 5\<rparr>, sample_belief\<lparr>confidence := 0.3\<rparr>]"
  have h: "confidenceDecayPerDay DEFAULT_CONFIG = 0.01 \<and> minConfidenceFloor DEFAULT_CONFIG \<le> 0.8
      \<and> confidence sample_belief = 0.9 \<and> invalidated_at sample_belief = None
      \<and> last_evaluated sample_belief = 864000000 - 10 * dayInMs"
    by (simp add: DEFAULT_CONFIG_def sample_belief_def dayInMs_def)
  note w1 = applyConfidenceDecay_whole_days [of DEFAULT_CONFIG 864000000 "[sample_belief]" 0 sample_belief]
  note w2 = applyConfidenceDecay_whole_days [of DEFAULT_CONFIG 907200000 ?t 0 sample_belief]
  from w1 h have a: "applyConfidenceDecay DEFAULT_CONFIG SqlInteger 864000000 [sample_belief]
     = (1, [sample_belief\<lparr>confidence := 0.8\<rparr>])"
    by blast
  from w2 have len: "length (snd (applyConfidenceDecay DEFAULT_CONFIG SqlInteger 907200000 ?t)) = length ?t"
    and cnt: "fst (applyConfidenceDecay DEFAULT_CONFIG SqlInteger 907200000 ?t) =
       length (filter (\<lambda>row. invalidated_at row = None \<and> confidence row > minConfidenceFloor DEFAULT_CONFIG) ?t)"
    and rows: "\<forall>i<length ?t.
        snd (applyConfidenceDecay DEFAULT_CONFIG SqlInteger 907200000 ?t) ! i =
          (if invalidated_at (?t ! i) = None \<and> confidence (?t ! i) > minConfidenceFloor DEFAULT_CONFIG
           then (?t ! i)\<lparr>confidence :=
                  max (minConfidenceFloor DEFAULT_CONFIG)
                      (confidence (?t ! i) - confidenceDecayPerDay DEFAULT_CONFIG *
                         real_of_int
                           (if last_evaluated (?t ! i) \<le> 907200000
                            then \<lfloor>(real_of_int 907200000 - real_of_int (last_evaluated (?t ! i))) / 86400000\<rfloor>
                            else \<lceil>(real_of_int 907200000 - real_of_int (last_evaluated (?t ! i))) / 86400000\<rceil>))\<rparr>
           else ?t ! i)"
    by blast+
  have fl: "\<lfloor>(907200000::real) / 86400000\<rfloor> = 10"
    by (simp add: floor_eq_iff)
  have r0: "snd (applyConfidenceDecay DEFAULT_CONFIG SqlInteger 907200000 ?t) ! 0 = sample_belief\<lparr>confidence := 0.8\<rparr>"
    using rows [rule_format, of 0] by (simp add: DEFAULT_CONFIG_def sample_belief_def fl)
  have r1: "snd (applyConfidenceDecay DEFAULT_CONFIG SqlInteger 907200000 ?t) ! 1 = sample_belief\<lparr>invalidated_at := Some 5\<rparr>"
    using rows [rule_format, of 1] by (simp add: DEFAULT_CONFIG_def sample_belief_def)
  have r2: "snd (applyConfidenceDecay DEFAULT_CONFIG SqlInteger 907200000 ?t) ! 2 = sample_belief\<lparr>confidence := 0.3\<rparr>"
    using rows [rule_format, of 2] by (simp add: DEFAULT_CONFIG_def sample_belief_def)
  have s: "snd (applyConfidenceDecay DEFAULT_CONFIG SqlInteger 907200000 ?t)
     = [sample_belief\<lparr>confidence := 0.8\<rparr>, sample_belief\<lparr>invalidated_at := Some 5\<rparr>,
        sample_belief\<lparr>confidence := 0.3\<rparr>]"
  proof (rule nth_equalityI)
    show "length (snd (applyConfidenceDecay DEFAULT_CONFIG SqlInteger 907200000 ?t))
        = length [sample_belief\<lparr>confidence := 0.8\<rparr>, sample_belief\<lparr>invalidated_at := Some 5\<rparr>,
                  sample_belief\<lparr>confidence := 0.3\<rparr>]"
      using len by simp
  next
    fix i assume "i < length (snd (applyConfidenceDecay DEFAULT_CONFIG SqlInteger 907200000 ?t))"
    then have "i = 0 \<or> i = 1 \<or> i = 2" using len by auto
    then show "snd (applyConfidenceDecay DEFAULT_CONFIG SqlInteger 907200000 ?t) ! i
        = [sample_belief\<lparr>confidence := 0.8\<rparr>, sample_belief\<lparr>invalidated_at := Some 5\<rparr>,
           sample_belief\<lparr>confidence := 0.3\<rparr>] ! i"
      using r0 r1 r2 by auto
  qed
  have c: "fst (applyConfidenceDecay DEFAULT_CONFIG SqlInteger 907200000 ?t) = 1"
    unfolding cnt by (simp add: DEFAULT_CONFIG_def sample_belief_def)
  show ?thesis using a s c by simp
qed

lemma decay_row_frame: "(decay_row config cls now row)\<lparr>confidence := c\<rparr> = row\<lparr>confidence := c\<rparr>"
  by (simp add: decay_row_def)

lemma decay_row_hit:
  "decays config row \<Longrightarrow> decay_row config cls now row =
    row\<lparr>confidence := max (minConfidenceFloor config)
      (confidence row - confidenceDecayPerDay config * elapsedDays cls now (last_evaluated row))\<rparr>"
  by (simp add: decay_row_def)

lemma decay_row_miss: "\<not> decays config row \<Longrightarrow> decay_row config cls now row = row"
  by (simp add: decay_row_def)

lemma decay_row_twice:
  assumes "decays config row"
  shows "confidence (decay_row config cls now (decay_row config cls now row)) =
    max (minConfidenceFloor config)
        (confidence row - 2 * (confidenceDecayPerDay config * elapsedDays cls now (last_evaluated row)))"
proof -
  define x where "x = confidenceDecayPerDay config * elapsedDays cls now (last_evaluated row)"
  define f where "f = minConfidenceFloor config"
  define r1 where "r1 = decay_row config cls now row"
  have c0: "f < confidence row" and act: "invalidated_at row = None"
    using assms by (simp_all add: decays_def f_def)
  have r1: "r1 = row\<lparr>confidence := max f (confidence row - x)\<rparr>"
    unfolding r1_def x_def f_def using assms by (rule decay_row_hit)
  have c1: "confidence r1 = max f (confidence row - x)"
    and le1: "last_evaluated r1 = last_evaluated row"
    and act1: "invalidated_at r1 = None"
    using act by (simp_all add: r1)
  show ?thesis
  proof (cases "f < confidence row - x")
    case True
    then have "decays config r1"
      using act1 c1 by (simp add: decays_def f_def [symmetric])
    then have "confidence (decay_row config cls now r1) = max f (confidence r1 - x)"
      by (simp add: decay_row_hit le1 x_def f_def)
    also have "\<dots> = max f (confidence row - 2 * x)"
      using True by (simp add: c1 max_def)
    finally show ?thesis by (simp add: x_def f_def r1_def)
  next
    case False
    then have c1f: "confidence r1 = f" by (simp add: c1 max_def)
    then have "\<not> decays config r1"
      by (simp add: decays_def f_def [symmetric])
    then have "confidence (decay_row config cls now r1) = f"
      using c1f by (simp add: decay_row_miss)
    moreover have "max f (confidence row - 2 * x) = f"
      using False c0 by (simp add: max_def)
    ultimately show ?thesis by (simp add: x_def f_def r1_def)
  qed
qed

text \<open>
  Claim C9. \<^verbatim>\<open>applyConfidenceDecay\<close> changes no field but the confidence, so
  \<open>last_evaluated\<close> stays; a second sweep at the same clock time decays by the same
  elapsed time again: after two sweeps a row the first one changed is at
  \<open>max floor (confidence - 2 * decayPerDay * elapsedDays)\<close>, and the belief at 0.9 of
  claim C2 goes to 0.8 and then to 0.7.
\<close>

theorem decay_compounds:
  "map (\<lambda>row. row\<lparr>confidence := 0\<rparr>) (snd (applyConfidenceDecay config cls now table))
     = map (\<lambda>row. row\<lparr>confidence := 0\<rparr>) table
   \<and> map last_evaluated (snd (applyConfidenceDecay config cls now table)) = map last_evaluated table
   \<and> (\<forall>i<length table.
        invalidated_at (table ! i) = None \<and> confidence (table ! i) > minConfidenceFloor config \<longrightarrow>
        confidence (snd (applyConfidenceDecay config cls now
                      (snd (applyConfidenceDecay config cls now table))) ! i) =
          max (minConfidenceFloor config)
              (confidence (table ! i)
                 - 2 * (confidenceDecayPerDay config * elapsedDays cls now (last_evaluated (table ! i)))))
   \<and> (confidenceDecayPerDay config = 0.01 \<and> minConfidenceFloor config \<le> 0.7
        \<and> confidence b = 0.9 \<and> invalidated_at b = None \<and> last_evaluated b = now - 10 * dayInMs
       \<longrightarrow> snd (applyConfidenceDecay config cls now [b]) = [b\<lparr>confidence := 0.8\<rparr>]
           \<and> snd (applyConfidenceDecay config cls now (snd (applyConfidenceDecay config cls now [b])))
               = [b\<lparr>confidence := 0.7\<rparr>])"
proof (intro conjI allI impI)
  show "map (\<lambda>row. row\<lparr>confidence := 0\<rparr>) (snd (applyConfidenceDecay config cls now table))
     = map (\<lambda>row. row\<lparr>confidence := 0\<rparr>) table"
    by (simp add: snd_applyConfidenceDecay decay_row_frame)
next
  have "last_evaluated (decay_row config cls now row) = last_evaluated row" for row
    by (simp add: decay_row_def)
  then show "map last_evaluated (snd (applyConfidenceDecay config cls now table)) = map last_evaluated table"
    by (simp add: snd_applyConfidenceDecay)
next
  fix i
  assume i: "i < length table"
    and "invalidated_at (table ! i) = None \<and> confidence (table ! i) > minConfidenceFloor config"
  then have "decays config (table ! i)" by (simp add: decays_def)
  then show "confidence (snd (applyConfidenceDecay config cls now
                      (snd (applyConfidenceDecay config cls now table))) ! i) =
          max (minConfidenceFloor config)
              (confidence (table ! i)
                 - 2 * (confidenceDecayPerDay config * elapsedDays cls now (last_evaluated (table ! i))))"
    using i by (simp add: snd_applyConfidenceDecay decay_row_twice)
next
  assume h: "confidenceDecayPerDay config = 0.01 \<and> minConfidenceFloor config \<le> 0.7
        \<and> confidence b = 0.9 \<and> invalidated_at b = None \<and> last_evaluated b = now - 10 * dayInMs"
  then have 1: "applyConfidenceDecay config cls now [b] = (1, [b\<lparr>confidence := 0.8\<rparr>])"
    by (intro decay_scenario) simp_all
  show "snd (applyConfidenceDecay config cls now [b]) = [b\<lparr>confidence := 0.8\<rparr>]"
    by (simp add: 1)
  have e: "elapsedDays cls ((now - 10 * dayInMs) + 10 * dayInMs) (now - 10 * dayInMs) = real_of_int 10"
    by (rule elapsedDays_whole)
  have d: "decays config (b\<lparr>confidence := 0.8\<rparr>)" using h by (simp add: decays_def)
  have "decay_row config cls now (b\<lparr>confidence := 0.8\<rparr>) = b\<lparr>confidence := 0.7\<rparr>"
    using h d e by (simp add: decay_row_def)
  then show "snd (applyConfidenceDecay config cls now (snd (applyConfidenceDecay config cls now [b])))
               = [b\<lparr>confidence := 0.7\<rparr>]"
    by (simp add: 1 snd_applyConfidenceDecay)
qed

theorem decay_compounds_witness:
  "snd (applyConfidenceDecay DEFAULT_CONFIG SqlInteger 864000000 [sample_belief])
     = [sample_belief\<lparr>confidence := 0.8\<rparr>]
   \<and> snd (applyConfidenceDecay DEFAULT_CONFIG SqlInteger 864000000
        (snd (applyConfidenceDecay DEFAULT_CONFIG SqlInteger 864000000 [sample_belief])))
     = [sample_belief\<lparr>confidence := 0.7\<rparr>]
   \<and> sample_belief\<lparr>confidence := 0.7\<rparr> \<noteq> sample_belief\<lparr>confidence := 0.8\<rparr>
   \<and> map last_evaluated (snd (applyConfidenceDecay DEFAULT_CONFIG SqlInteger 864000000 [sample_belief])) = [0]"
proof -
  have h: "confidenceDecayPerDay DEFAULT_CONFIG = 0.01 \<and> minConfidenceFloor DEFAULT_CONFIG \<le> 0.7
      \<and> confidence sample_belief = 0.9 \<and> invalidated_at sample_belief = None
      \<and> last_evaluated sample_belief = 864000000 - 10 * dayInMs"
    by (simp add: DEFAULT_CONFIG_def sample_belief_def dayInMs_def)
  have ne: "sample_belief\<lparr>confidence := 0.7\<rparr> \<noteq> sample_belief\<lparr>confidence := 0.8\<rparr>"
    by (simp add: sample_belief_def)
  have le: "map last_evaluated [sample_belief] = [0]"
    by (simp add: sample_belief_def)
  from h ne le decay_compounds [of DEFAULT_CONFIG SqlInteger 864000000 "[sample_belief]" sample_belief]
  show ?thesis by metis
qed

text \<open>
  Claim C1, as stated, fails: \<^verbatim>\<open>create\<close> and \<^verbatim>\<open>update\<close> write the confidence they are
  given, 0.1 and 1.5 here, with the floor at 0.3.
\<close>

theorem confidence_range_counterexample:
  "create asciiLower ''b2'' (sample_belief\<lparr>confidence := 0.1\<rparr>) []
     = Inr (sample_belief\<lparr>belief_id := ''b2'', confidence := 0.1\<rparr>,
            [sample_belief\<lparr>belief_id := ''b2'', confidence := 0.1\<rparr>])
   \<and> \<not> conf_in_range DEFAULT_CONFIG (sample_belief\<lparr>belief_id := ''b2'', confidence := 0.1\<rparr>)
   \<and> update ''b1'' (no_changes\<lparr>ch_confidence := Some 1.5\<rparr>) [sample_belief]
     = (Some (sample_belief\<lparr>confidence := 1.5\<rparr>), [sample_belief\<lparr>confidence := 1.5\<rparr>])
   \<and> \<not> conf_in_range DEFAULT_CONFIG (sample_belief\<lparr>confidence := 1.5\<rparr>)"
  by (simp add: create_def update_def getById_def rowToBelief_def set_fields_def no_updates_def
      no_changes_def sample_belief_def conf_in_range_def DEFAULT_CONFIG_def Let_def)

lemma adjustConfidence_listed:
  assumes "minConfidenceFloor config \<le> 1"
    and "row \<in> set (adjustConfidence config ids delta table)"
    and "belief_id row \<in> set ids"
  shows "conf_in_range config row"
  using assms by (auto simp: adjustConfidence_def conf_in_range_def split: if_splits)

lemma adjustConfidence_keeps_range:
  assumes "minConfidenceFloor config \<le> 1" and "\<forall>row\<in>set table. conf_in_range config row"
  shows "\<forall>row\<in>set (adjustConfidence config ids delta table). conf_in_range config row"
  using assms by (auto simp: adjustConfidence_def conf_in_range_def split: if_splits)

lemma decay_row_floor:
  "decays config row \<Longrightarrow> minConfidenceFloor config \<le> confidence (decay_row config cls now row)"
  by (simp add: decay_row_hit)

lemma decay_row_keeps_range:
  assumes "conf_in_range config row" and "0 \<le> confidenceDecayPerDay config"
    and "last_evaluated row \<le> now"
  shows "conf_in_range config (decay_row config cls now row)"
proof (cases "decays config row")
  case True
  have "0 \<le> confidenceDecayPerDay config * elapsedDays cls now (last_evaluated row)"
    using assms(2,3) by (simp add: elapsedDays_nonneg)
  then show ?thesis
    using assms(1) True by (simp add: decay_row_hit conf_in_range_def)
next
  case False
  then show ?thesis using assms(1) by (simp add: decay_row_miss)
qed

lemma create_confidence:
  assumes "create lc new_id b table = Inr (fullBelief, table')"
  shows "confidence fullBelief = confidence b
    \<and> (\<exists>row. table' = table @ [row] \<and> confidence row = confidence b)"
  using assms
  by (auto simp: create_def Let_def split: if_splits option.splits)

lemma update_confidence:
  "map confidence (snd (update i changes table)) =
    map (\<lambda>row. if belief_id row = i
                then (case ch_confidence changes of None \<Rightarrow> confidence row | Some c \<Rightarrow> c)
                else confidence row) table"
proof (cases "find (\<lambda>row. belief_id row = i) table")
  case None
  then have "\<forall>row\<in>set table. belief_id row \<noteq> i"
    by (simp add: find_None_iff)
  then show ?thesis using None by (simp add: update_def getById_def)
next
  case (Some r)
  show ?thesis
  proof (cases "no_updates changes")
    case True
    then have "ch_confidence changes = None" by (simp add: no_updates_def)
    then show ?thesis using Some True by (simp add: update_def getById_def)
  next
    case False
    then show ?thesis using Some
      by (simp add: update_def getById_def Let_def set_fields_def split: option.splits)
  qed
qed

text \<open>
  Claim C1, amended. With a floor of at most 1, \<^verbatim>\<open>adjustConfidence\<close> leaves every listed
  belief in \<open>[floor, 1]\<close> and keeps a table that is in range in range.
  \<^verbatim>\<open>applyConfidenceDecay\<close> leaves no row it changes below the floor, and keeps a table in
  range when the decay per day is not negative and no \<open>last_evaluated\<close> lies after \<open>now\<close>.
  \<^verbatim>\<open>create\<close> and \<^verbatim>\<open>update\<close> store the confidence they are given, unchanged.
\<close>

theorem confidence_range_amended:
  "(minConfidenceFloor config \<le> 1 \<longrightarrow>
      (\<forall>row\<in>set (adjustConfidence config ids delta table).
         belief_id row \<in> set ids \<longrightarrow> conf_in_range config row))
   \<and> (minConfidenceFloor config \<le> 1 \<and> (\<forall>row\<in>set table. conf_in_range config row) \<longrightarrow>
      (\<forall>row\<in>set (adjustConfidence config ids delta table). conf_in_range config row))
   \<and> (\<forall>i<length table. decays config (table ! i) \<longrightarrow>
        minConfidenceFloor config \<le> confidence (snd (applyConfidenceDecay config cls now table) ! i))
   \<and> ((\<forall>row\<in>set table. conf_in_range config row \<and> last_evaluated row \<le> now)
        \<and> 0 \<le> confidenceDecayPerDay config \<longrightarrow>
      (\<forall>row\<in>set (snd (applyConfidenceDecay config cls now table)). conf_in_range config row))
   \<and> (create lc new_id b table = Inr (fullBelief, table') \<longrightarrow>
        confidence fullBelief = confidence b
        \<and> (\<exists>row. table' = table @ [row] \<and> confidence row = confidence b))
   \<and> map confidence (snd (update i changes table)) =
        map (\<lambda>row. if belief_id row = i
                    then (case ch_confidence changes of None \<Rightarrow> confidence row | Some c \<Rightarrow> c)
                    else confidence row) table"
proof (intro conjI)
  show "minConfidenceFloor config \<le> 1 \<longrightarrow>
      (\<forall>row\<in>set (adjustConfidence config ids delta table).
         belief_id row \<in> set ids \<longrightarrow> conf_in_range config row)"
    by (blast intro: adjustConfidence_listed)
next
  show "minConfidenceFloor config \<le> 1 \<and> (\<forall>row\<in>set table. conf_in_range config row) \<longrightarrow>
      (\<forall>row\<in>set (adjustConfidence config ids delta table). conf_in_range config row)"
    using adjustConfidence_keeps_range [of config table ids delta] by blast
next
  show "\<forall>i<length table. decays config (table ! i) \<longrightarrow>
        minConfidenceFloor config \<le> confidence (snd (applyConfidenceDecay config cls now table) ! i)"
    by (simp add: snd_applyConfidenceDecay decay_row_floor)
next
  show "(\<forall>row\<in>set table. conf_in_range config row \<and> last_evaluated row \<le> now)
        \<and> 0 \<le> confidenceDecayPerDay config \<longrightarrow>
      (\<forall>row\<in>set (snd (applyConfidenceDecay config cls now table)). conf_in_range config row)"
    by (auto simp: snd_applyConfidenceDecay intro: decay_row_keeps_range)
next
  show "create lc new_id b table = Inr (fullBelief, table') \<longrightarrow>
        confidence fullBelief = confidence b
        \<and> (\<exists>row. table' = table @ [row] \<and> confidence row = confidence b)"
    using create_confidence [of lc new_id b table fullBelief table'] by blast
next
  show "map confidence (snd (update i changes table)) =
        map (\<lambda>row. if belief_id row = i
                    then (case ch_confidence changes of None \<Rightarrow> confidence row | Some c \<Rightarrow> c)
                    else confidence row) table"
    by (rule update_confidence)
qed

theorem confidence_range_amended_witness:
  "map confidence (adjustConfidence DEFAULT_CONFIG [''b1''] (- 5) [sample_belief]) = [0.3]
   \<and> conf_in_range DEFAULT_CONFIG (hd (adjustConfidence DEFAULT_CONFIG [''b1''] (- 5) [sample_belief]))
   \<and> conf_in_range DEFAULT_CONFIG (hd (snd (applyConfidenceDecay DEFAULT_CONFIG SqlReal 864000000 [sample_belief])))
   \<and> map confidence (snd (update ''b1'' (no_changes\<lparr>ch_confidence := Some 0.5\<rparr>) [sample_belief])) = [0.5]"
proof -
  note w = confidence_range_amended [of DEFAULT_CONFIG "[''b1'']" "- 5" "[sample_belief]"
      SqlReal 864000000 asciiLower "''b2''" sample_belief sample_belief "[sample_belief]"
      "''b1''" "no_changes\<lparr>ch_confidence := Some 0.5\<rparr>"]
  have f: "minConfidenceFloor DEFAULT_CONFIG \<le> 1" "0 \<le> confidenceDecayPerDay DEFAULT_CONFIG"
    by (simp_all add: DEFAULT_CONFIG_def)
  have r: "\<forall>row\<in>set [sample_belief]. conf_in_range DEFAULT_CONFIG row \<and> last_evaluated row \<le> 864000000"
    by (simp add: conf_in_range_def DEFAULT_CONFIG_def sample_belief_def)
  have a: "adjustConfidence DEFAULT_CONFIG [''b1''] (- 5) [sample_belief] = [sample_belief\<lparr>confidence := 0.3\<rparr>]"
    by (simp add: adjustConfidence_def DEFAULT_CONFIG_def sample_belief_def)
  have d: "snd (applyConfidenceDecay DEFAULT_CONFIG SqlReal 864000000 [sample_belief]) \<noteq> []"
    by (simp add: snd_applyConfidenceDecay)
  from w f r have 1: "\<forall>row\<in>set (adjustConfidence DEFAULT_CONFIG [''b1''] (- 5) [sample_belief]).
      belief_id row \<in> set [''b1''] \<longrightarrow> conf_in_range DEFAULT_CONFIG row"
    and 2: "\<forall>row\<in>set (snd (applyConfidenceDecay DEFAULT_CONFIG SqlReal 864000000 [sample_belief])).
      conf_in_range DEFAULT_CONFIG row"
    and 3: "map confidence (snd (update ''b1'' (no_changes\<lparr>ch_confidence := Some 0.5\<rparr>) [sample_belief])) =
        map (\<lambda>row. if belief_id row = ''b1''
                    then (case ch_confidence (no_changes\<lparr>ch_confidence := Some 0.5\<rparr>) of
                            None \<Rightarrow> confidence row | Some c \<Rightarrow> c)
                    else confidence row) [sample_belief]"
    by blast+
  have c1: "conf_in_range DEFAULT_CONFIG (hd (adjustConfidence DEFAULT_CONFIG [''b1''] (- 5) [sample_belief]))"
  proof -
    have "belief_id sample_belief = ''b1''" by (simp add: sample_belief_def)
    then show ?thesis using 1 unfolding a by simp
  qed
  have c2: "conf_in_range DEFAULT_CONFIG (hd (snd (applyConfidenceDecay DEFAULT_CONFIG SqlReal 864000000 [sample_belief])))"
    using 2 d by simp
  have c3: "map confidence (snd (update ''b1'' (no_changes\<lparr>ch_confidence := Some 0.5\<rparr>) [sample_belief])) = [0.5]"
    unfolding 3 by (simp add: sample_belief_def)
  show ?thesis using c1 c2 c3 by (simp add: a)
qed

section \<open>Invalidation\<close>

lemma keeps_refl: "keeps_invalidation table table"
  by (simp add: keeps_invalidation_def)

lemma keeps_trans:
  assumes "keeps_invalidation t1 t2" and "keeps_invalidation t2 t3"
  shows "keeps_invalidation t1 t3"
  unfolding keeps_invalidation_def
proof (intro conjI allI impI)
  show "length t1 \<le> length t3"
    using assms by (simp add: keeps_invalidation_def)
next
  fix k assume k: "k < length t1" and inv: "invalidated_at (t1 ! k) \<noteq> None"
  from assms(1) k inv have 12: "belief_id (t2 ! k) = belief_id (t1 ! k)"
    "invalidated_at (t2 ! k) = invalidated_at (t1 ! k)"
    "invalidation_reason (t2 ! k) = invalidation_reason (t1 ! k)" and k2: "k < length t2"
    by (simp_all add: keeps_invalidation_def)
  from assms(2) k2 inv 12 have 23: "belief_id (t3 ! k) = belief_id (t2 ! k)"
    "invalidated_at (t3 ! k) = invalidated_at (t2 ! k)"
    "invalidation_reason (t3 ! k) = invalidation_reason (t2 ! k)"
    by (simp_all add: keeps_invalidation_def)
  show "belief_id (t3 ! k) = belief_id (t1 ! k)"
    "invalidated_at (t3 ! k) = invalidated_at (t1 ! k)"
    "invalidation_reason (t3 ! k) = invalidation_reason (t1 ! k)"
    using 12 23 by simp_all
qed

lemma keeps_map:
  assumes "\<And>row. invalidated_at row \<noteq> None \<Longrightarrow>
      belief_id (f row) = belief_id row \<and> invalidated_at (f row) = invalidated_at row
      \<and> invalidation_reason (f row) = invalidation_reason row"
  shows "keeps_invalidation table (map f table)"
  using assms by (simp add: keeps_invalidation_def)

lemma keeps_append: "keeps_invalidation table (table @ rows)"
  by (simp add: keeps_invalidation_def nth_append)

lemma keeps_create:
  "keeps_invalidation table (run_call lc config (Create new_id b) table)"
proof (cases "create lc new_id b table")
  case (Inl e)
  then show ?thesis by (simp add: keeps_refl)
next
  case (Inr p)
  then obtain row where "snd p = table @ [row]"
    by (auto simp: create_def Let_def split: if_splits option.splits)
  then show ?thesis using Inr by (cases p) (simp add: keeps_append)
qed

lemma keeps_update:
  "keeps_invalidation table (snd (update i changes table))"
proof -
  have "keeps_invalidation table
      (map (\<lambda>row. if belief_id row = i then set_fields changes row else row) table)"
    by (rule keeps_map) (simp add: set_fields_def)
  then show ?thesis
    by (simp add: update_def Let_def keeps_refl split: option.splits)
qed

lemma keeps_run_call: "keeps_invalidation table (run_call lc config call table)"
proof (cases call)
  case (Create new_id b)
  then show ?thesis by (simp only: keeps_create)
next
  case (Update i changes)
  then show ?thesis by (simp add: keeps_update)
next
  case (Invalidate i reason now)
  have "keeps_invalidation table (map (\<lambda>row. if belief_id row = i \<and> invalidated_at row = None
          then row\<lparr>invalidated_at := Some now, invalidation_reason := Some reason\<rparr> else row) table)"
    by (rule keeps_map) simp
  then show ?thesis using Invalidate by (simp add: invalidate_def Let_def)
next
  case (IncrementContradicting i)
  have "keeps_invalidation table (incrementContradicting i table)"
    unfolding incrementContradicting_def by (rule keeps_map) simp
  then show ?thesis using IncrementContradicting by simp
next
  case (IncrementSupporting i)
  have "keeps_invalidation table (incrementSupporting i table)"
    unfolding incrementSupporting_def by (rule keeps_map) simp
  then show ?thesis using IncrementSupporting by simp
next
  case (AdjustConfidence ids delta)
  have "keeps_invalidation table (map (\<lambda>row. if belief_id row \<in> set ids
          then row\<lparr>confidence := max (minConfidenceFloor config) (min 1.0 (confidence row + delta))\<rparr>
          else row) table)"
    by (rule keeps_map) simp
  then show ?thesis using AdjustConfidence by (simp add: adjustConfidence_def keeps_refl)
next
  case (ApplyConfidenceDecay cls now)
  have "keeps_invalidation table (map (decay_row config cls now) table)"
    by (rule keeps_map) (simp add: decay_row_def)
  then show ?thesis using ApplyConfidenceDecay by (simp add: snd_applyConfidenceDecay)
qed

lemma keeps_fold: "keeps_invalidation table (fold (run_call lc config) calls table)"
proof (induction calls arbitrary: table)
  case Nil
  then show ?case by (simp add: keeps_refl)
next
  case (Cons c calls)
  have "keeps_invalidation table (run_call lc config c table)" by (rule keeps_run_call)
  moreover have "keeps_invalidation (run_call lc config c table)
      (fold (run_call lc config) calls (run_call lc config c table))" by (rule Cons.IH)
  ultimately show ?case by (simp add: keeps_trans)
qed

lemma invalidate_snd:
  "snd (invalidate i reason now table) =
    map (\<lambda>row. if belief_id row = i \<and> invalidated_at row = None
                then row\<lparr>invalidated_at := Some now, invalidation_reason := Some reason\<rparr>
                else row) table"
  by (simp add: invalidate_def Let_def)

lemma invalidate_fst:
  "fst (invalidate i reason now table) \<longleftrightarrow>
    (\<exists>row\<in>set table. belief_id row = i \<and> invalidated_at row = None)"
proof -
  have 1: "fst (invalidate i reason now table) \<longleftrightarrow>
      filter (\<lambda>row. belief_id row = i \<and> invalidated_at row = None) table \<noteq> []"
    by (simp add: invalidate_def Let_def)
  have "filter (\<lambda>row. belief_id row = i \<and> invalidated_at row = None) table \<noteq> [] \<longleftrightarrow>
    (\<exists>row\<in>set table. belief_id row = i \<and> invalidated_at row = None)"
    by (simp only: filter_empty_conv) blast
  then show ?thesis by (simp only: 1)
qed

lemma invalidated_row:
  "\<not> (belief_id (if belief_id row = i \<and> invalidated_at row = None
                   then row\<lparr>invalidated_at := Some now, invalidation_reason := Some reason\<rparr>
                   else row) = i
       \<and> invalidated_at (if belief_id row = i \<and> invalidated_at row = None
                   then row\<lparr>invalidated_at := Some now, invalidation_reason := Some reason\<rparr>
                   else row) = None)"
proof (cases "belief_id row = i \<and> invalidated_at row = None")
  case True
  then show ?thesis by simp
next
  case False
  then show ?thesis by simp
qed

lemma invalidate_again: "\<not> fst (invalidate i reason2 now2 (snd (invalidate i reason now table)))"
proof -
  have "\<forall>row\<in>set (snd (invalidate i reason now table)).
      \<not> (belief_id row = i \<and> invalidated_at row = None)"
    unfolding invalidate_snd set_map ball_simps(9) by (intro ballI invalidated_row)
  then show ?thesis unfolding invalidate_fst by blast
qed

text \<open>
  Claim C5. \<^verbatim>\<open>invalidate\<close> returns true exactly when the table holds an active row of
  that identifier; it sets \<open>invalidated_at\<close> to \<open>now\<close> and \<open>invalidation_reason\<close> to the
  reason on such rows only, and a second call on the identifier returns false. Whatever
  calls that write to the table follow (\<^verbatim>\<open>create\<close>, \<^verbatim>\<open>update\<close> with any changes,
  \<^verbatim>\<open>invalidate\<close>, the two counters, \<^verbatim>\<open>adjustConfidence\<close>, \<^verbatim>\<open>applyConfidenceDecay\<close>),
  a row that is invalidated stays in its place with the same identifier,
  \<open>invalidated_at\<close> and \<open>invalidation_reason\<close>.
\<close>

theorem invalidate_spec:
  "(fst (invalidate i reason now table) \<longleftrightarrow>
      (\<exists>row\<in>set table. belief_id row = i \<and> invalidated_at row = None))
   \<and> length (snd (invalidate i reason now table)) = length table
   \<and> (\<forall>k<length table.
        snd (invalidate i reason now table) ! k =
          (if belief_id (table ! k) = i \<and> invalidated_at (table ! k) = None
           then (table ! k)\<lparr>invalidated_at := Some now, invalidation_reason := Some reason\<rparr>
           else table ! k))
   \<and> \<not> fst (invalidate i reason2 now2 (snd (invalidate i reason now table)))
   \<and> length table \<le> length (fold (run_call lc config) calls table)
   \<and> (\<forall>k<length table. invalidated_at (table ! k) \<noteq> None \<longrightarrow>
        belief_id (fold (run_call lc config) calls table ! k) = belief_id (table ! k)
        \<and> invalidated_at (fold (run_call lc config) calls table ! k) = invalidated_at (table ! k)
        \<and> invalidation_reason (fold (run_call lc config) calls table ! k)
            = invalidation_reason (table ! k))"
proof (intro conjI)
  show "fst (invalidate i reason now table) \<longleftrightarrow>
      (\<exists>row\<in>set table. belief_id row = i \<and> invalidated_at row = None)"
    by (rule invalidate_fst)
next
  show "length (snd (invalidate i reason now table)) = length table"
    by (simp add: invalidate_snd)
next
  show "\<forall>k<length table.
        snd (invalidate i reason now table) ! k =
          (if belief_id (table ! k) = i \<and> invalidated_at (table ! k) = None
           then (table ! k)\<lparr>invalidated_at := Some now, invalidation_reason := Some reason\<rparr>
           else table ! k)"
    by (simp add: invalidate_snd)
next
  show "\<not> fst (invalidate i reason2 now2 (snd (invalidate i reason now table)))"
    by (rule invalidate_again)
next
  show "length table \<le> length (fold (run_call lc config) calls table)"
    using keeps_fold [of table lc config calls] by (simp add: keeps_invalidation_def)
next
  show "\<forall>k<length table. invalidated_at (table ! k) \<noteq> None \<longrightarrow>
        belief_id (fold (run_call lc config) calls table ! k) = belief_id (table ! k)
        \<and> invalidated_at (fold (run_call lc config) calls table ! k) = invalidated_at (table ! k)
        \<and> invalidation_reason (fold (run_call lc config) calls table ! k)
            = invalidation_reason (table ! k)"
    using keeps_fold [of table lc config calls] by (simp add: keeps_invalidation_def)
qed

theorem invalidate_spec_witness:
  "invalidate ''b1'' ''stale'' 7 [sample_belief]
     = (True, [sample_belief\<lparr>invalidated_at := Some 7, invalidation_reason := Some ''stale''\<rparr>])
   \<and> \<not> fst (invalidate ''b1'' ''again'' 9 (snd (invalidate ''b1'' ''stale'' 7 [sample_belief])))
   \<and> invalidated_at
        (fold (run_call asciiLower DEFAULT_CONFIG)
           [Update ''b1'' (no_changes\<lparr>ch_invalidated_at := Some 11, ch_invalidation_reason := Some ''x'',
                                      ch_confidence := Some 0.5\<rparr>),
            Invalidate ''b1'' ''again'' 9]
           (snd (invalidate ''b1'' ''stale'' 7 [sample_belief])) ! 0) = Some 7
   \<and> invalidation_reason
        (fold (run_call asciiLower DEFAULT_CONFIG)
           [Update ''b1'' (no_changes\<lparr>ch_invalidated_at := Some 11, ch_invalidation_reason := Some ''x'',
                                      ch_confidence := Some 0.5\<rparr>),
            Invalidate ''b1'' ''again'' 9]
           (snd (invalidate ''b1'' ''stale'' 7 [sample_belief])) ! 0) = Some ''stale''"
proof -
  have a1: "fst (invalidate ''b1'' ''stale'' 7 [sample_belief])"
    unfolding invalidate_fst by (simp add: sample_belief_def)
  have a2: "snd (invalidate ''b1'' ''stale'' 7 [sample_belief])
     = [sample_belief\<lparr>invalidated_at := Some 7, invalidation_reason := Some ''stale''\<rparr>]"
    unfolding invalidate_snd by (simp add: sample_belief_def)
  have a: "invalidate ''b1'' ''stale'' 7 [sample_belief]
     = (True, [sample_belief\<lparr>invalidated_at := Some 7, invalidation_reason := Some ''stale''\<rparr>])"
    using a1 a2 by (simp add: prod_eq_iff)
  note w = invalidate_spec [of "''b1''" "''again''" 9
      "[sample_belief\<lparr>invalidated_at := Some 7, invalidation_reason := Some ''stale''\<rparr>]"
      "''again''" 9 asciiLower DEFAULT_CONFIG
      "[Update ''b1'' (no_changes\<lparr>ch_invalidated_at := Some 11, ch_invalidation_reason := Some ''x'',
                                      ch_confidence := Some 0.5\<rparr>),
        Invalidate ''b1'' ''again'' 9]"]
  have b: "\<not> fst (invalidate ''b1'' ''again'' 9
      [sample_belief\<lparr>invalidated_at := Some 7, invalidation_reason := Some ''stale''\<rparr>])"
    using w by (simp add: sample_belief_def)
  from w have "\<forall>k<length [sample_belief\<lparr>invalidated_at := Some 7, invalidation_reason := Some ''stale''\<rparr>].
      invalidated_at ([sample_belief\<lparr>invalidated_at := Some 7, invalidation_reason := Some ''stale''\<rparr>] ! k) \<noteq> None \<longrightarrow>
        invalidated_at (fold (run_call asciiLower DEFAULT_CONFIG)
           [Update ''b1'' (no_changes\<lparr>ch_invalidated_at := Some 11, ch_invalidation_reason := Some ''x'',
                                      ch_confidence := Some 0.5\<rparr>),
            Invalidate ''b1'' ''again'' 9]
           [sample_belief\<lparr>invalidated_at := Some 7, invalidation_reason := Some ''stale''\<rparr>] ! k)
          = invalidated_at ([sample_belief\<lparr>invalidated_at := Some 7, invalidation_reason := Some ''stale''\<rparr>] ! k)
        \<and> invalidation_reason (fold (run_call asciiLower DEFAULT_CONFIG)
           [Update ''b1'' (no_changes\<lparr>ch_invalidated_at := Some 11, ch_invalidation_reason := Some ''x'',
                                      ch_confidence := Some 0.5\<rparr>),
            Invalidate ''b1'' ''again'' 9]
           [sample_belief\<lparr>invalidated_at := Some 7, invalidation_reason := Some ''stale''\<rparr>] ! k)
          = invalidation_reason ([sample_belief\<lparr>invalidated_at := Some 7, invalidation_reason := Some ''stale''\<rparr>] ! k)"
    by blast
  then have c: "invalidated_at (fold (run_call asciiLower DEFAULT_CONFIG)
           [Update ''b1'' (no_changes\<lparr>ch_invalidated_at := Some 11, ch_invalidation_reason := Some ''x'',
                                      ch_confidence := Some 0.5\<rparr>),
            Invalidate ''b1'' ''again'' 9]
           [sample_belief\<lparr>invalidated_at := Some 7, invalidation_reason := Some ''stale''\<rparr>] ! 0) = Some 7
     \<and> invalidation_reason (fold (run_call asciiLower DEFAULT_CONFIG)
           [Update ''b1'' (no_changes\<lparr>ch_invalidated_at := Some 11, ch_invalidation_reason := Some ''x'',
                                      ch_confidence := Some 0.5\<rparr>),
            Invalidate ''b1'' ''again'' 9]
           [sample_belief\<lparr>invalidated_at := Some 7, invalidation_reason := Some ''stale''\<rparr>] ! 0) = Some ''stale''"
    by simp
  show ?thesis using b c unfolding a by simp
qed

section \<open>Reading: \<open>getActive\<close>\<close>

lemma set_where_options: "set (where_options options rows) \<subseteq> set rows"
  by (auto simp: where_options_def Let_def split: option.splits)

lemma limit_clause_take: "\<exists>n. limit_clause options rows = take n rows"
proof (cases "truthy (opt_limit options)")
  case None
  then have "limit_clause options rows = take (length rows) rows"
    by (simp add: limit_clause_def)
  then show ?thesis by blast
next
  case (Some l)
  show ?thesis
  proof (cases "l < 0")
    case True
    then have "limit_clause options rows = take (length rows) rows"
      using Some by (simp add: limit_clause_def sql_limit_def)
    then show ?thesis by blast
  next
    case False
    then have "limit_clause options rows = take (nat l) rows"
      using Some by (simp add: limit_clause_def sql_limit_def)
    then show ?thesis by blast
  qed
qed

lemma limit_clause_none: "limit_clause (options\<lparr>opt_limit := None\<rparr>) rows = rows"
  by (simp add: limit_clause_def)

lemma limit_clause_pos:
  "0 < l \<Longrightarrow> limit_clause (options\<lparr>opt_limit := Some l\<rparr>) rows = take (nat l) rows"
  by (simp add: limit_clause_def sql_limit_def)

lemma where_options_limit: "where_options (options\<lparr>opt_limit := l\<rparr>) rows = where_options options rows"
  by (simp add: where_options_def)

lemma getActive_eq:
  "getActive options table = map rowToBelief (limit_clause options (active_ordered options table))"
  by (simp add: getActive_def active_ordered_def Let_def)

lemma active_ordered_limit: "active_ordered (options\<lparr>opt_limit := l\<rparr>) table = active_ordered options table"
  by (simp add: active_ordered_def where_options_limit)

lemma active_ordered_active: "row \<in> set (active_ordered options table) \<Longrightarrow> invalidated_at row = None"
  using set_where_options [of options "filter (\<lambda>row. invalidated_at row = None) table"]
  by (auto simp: active_ordered_def)

lemma active_ordered_sorted:
  "sorted_wrt (\<lambda>a b. importance a > importance b
                      \<or> (importance a = importance b \<and> confidence a \<ge> confidence b))
     (active_ordered options table)"
proof -
  let ?key = "\<lambda>row::Belief. (- importance row, - confidence row)"
  have "sorted (map ?key (active_ordered options table))"
    unfolding active_ordered_def by (rule sorted_sort_key)
  then have "sorted_wrt (\<lambda>a b. ?key a \<le> ?key b) (active_ordered options table)"
    by (simp add: sorted_map)
  then show ?thesis
    by (rule sorted_wrt_mono_rel [rotated]) (auto simp: less_eq_prod_def)
qed

text \<open>
  Claim C8. \<^verbatim>\<open>getActive\<close> returns no belief whose \<open>invalidated_at\<close> is set; its result is
  ordered by importance, highest first, and by confidence, highest first, among equal
  importance; the result is always a prefix of the result without a limit, and for a
  limit \<open>l > 0\<close> it is the first \<open>l\<close> beliefs of that result.
\<close>

theorem getActive_spec:
  "(\<forall>b\<in>set (getActive options table). invalidated_at b = None)
   \<and> sorted_wrt (\<lambda>a b. importance a > importance b
                        \<or> (importance a = importance b \<and> confidence a \<ge> confidence b))
       (getActive options table)
   \<and> (\<exists>n. getActive options table = take n (getActive (options\<lparr>opt_limit := None\<rparr>) table))
   \<and> (0 < l \<longrightarrow> getActive (options\<lparr>opt_limit := Some l\<rparr>) table
                   = take (nat l) (getActive (options\<lparr>opt_limit := None\<rparr>) table))"
proof (intro conjI)
  obtain n where n: "limit_clause options (active_ordered options table) = take n (active_ordered options table)"
    using limit_clause_take by blast
  have sub: "set (take n (active_ordered options table)) \<subseteq> set (active_ordered options table)"
    by (rule set_take_subset)
  show "\<forall>b\<in>set (getActive options table). invalidated_at b = None"
    using sub active_ordered_active [of _ options table]
    by (auto simp: getActive_eq n rowToBelief_def)
  have "sorted_wrt (\<lambda>a b. importance a > importance b
                        \<or> (importance a = importance b \<and> confidence a \<ge> confidence b))
       (take n (active_ordered options table))"
    using active_ordered_sorted by (rule sorted_wrt_take)
  then show "sorted_wrt (\<lambda>a b. importance a > importance b
                        \<or> (importance a = importance b \<and> confidence a \<ge> confidence b))
       (getActive options table)"
    by (simp add: getActive_eq n sorted_wrt_map rowToBelief_def)
  have "getActive options table = take n (getActive (options\<lparr>opt_limit := None\<rparr>) table)"
    by (simp add: getActive_eq n limit_clause_none active_ordered_limit take_map)
  then show "\<exists>n. getActive options table = take n (getActive (options\<lparr>opt_limit := None\<rparr>) table)"
    by blast
  show "0 < l \<longrightarrow> getActive (options\<lparr>opt_limit := Some l\<rparr>) table
                   = take (nat l) (getActive (options\<lparr>opt_limit := None\<rparr>) table)"
    by (simp add: getActive_eq limit_clause_none limit_clause_pos active_ordered_limit take_map)
qed


lemma getActive_sample:
  "getActive no_options sample_table =
     [sample_belief\<lparr>belief_id := ''b2'', importance := 7, confidence := - 0.5\<rparr>, sample_belief]"
  by (simp add: getActive_def where_options_def limit_clause_def no_options_def sample_table_def
      sample_belief_def rowToBelief_def less_eq_prod_def Let_def)

theorem getActive_spec_witness:
  "getActive (no_options\<lparr>opt_limit := Some 1\<rparr>) sample_table =
     [sample_belief\<lparr>belief_id := ''b2'', importance := 7, confidence := - 0.5\<rparr>]
   \<and> getActive no_options sample_table =
     [sample_belief\<lparr>belief_id := ''b2'', importance := 7, confidence := - 0.5\<rparr>, sample_belief]
   \<and> invalidated_at (sample_belief\<lparr>belief_id := ''b2'', importance := 7, confidence := - 0.5\<rparr>) = None"
proof -
  have n: "no_options\<lparr>opt_limit := None\<rparr> = no_options"
    by (simp add: no_options_def)
  have "(0::int) < 1" by simp
  with getActive_spec [of no_options sample_table 1]
  have "getActive (no_options\<lparr>opt_limit := Some 1\<rparr>) sample_table
      = take (nat 1) (getActive (no_options\<lparr>opt_limit := None\<rparr>) sample_table)"
    and "\<forall>b\<in>set (getActive no_options sample_table). invalidated_at b = None"
    by blast+
  then show ?thesis by (simp add: n getActive_sample)
qed

lemma where_options_zero:
  "where_options (options\<lparr>opt_minConfidence := Some 0\<rparr>) rows
     = where_options (options\<lparr>opt_minConfidence := None\<rparr>) rows"
  by (simp add: where_options_def)

lemma limit_clause_minConfidence:
  "limit_clause (options\<lparr>opt_minConfidence := m\<rparr>) rows = limit_clause options rows"
  by (simp add: limit_clause_def)

lemma limit_clause_zero:
  "limit_clause (options\<lparr>opt_limit := Some 0\<rparr>) rows = rows"
  by (simp add: limit_clause_def)

lemma limit_or_10_zero: "limit_or_10 (options\<lparr>opt_limit := Some 0\<rparr>) = 10"
  and limit_or_10_ten: "limit_or_10 (options\<lparr>opt_limit := Some 10\<rparr>) = 10"
  and limit_or_10_none: "limit_or_10 (options\<lparr>opt_limit := None\<rparr>) = 10"
  by (simp_all add: limit_or_10_def)

lemma searchSemantic_limit:
  "limit_or_10 o1 = limit_or_10 o2 \<Longrightarrow> opt_minConfidence o1 = opt_minConfidence o2 \<Longrightarrow>
   opt_domain o1 = opt_domain o2 \<Longrightarrow>
   searchSemantic lc query o1 table = searchSemantic lc query o2 table"
  by (simp add: searchSemantic_def getActive_def where_options_def limit_clause_def Let_def
      split: sum.splits)

section \<open>Hybrid search\<close>

lemma merged_semantic_step: "merged st \<Longrightarrow> merged (semantic_step keywordMap r st)"
  by (cases st) (auto simp: merged_def semantic_step_def rid_def Let_def)

lemma merged_keyword_step: "merged st \<Longrightarrow> merged (keyword_step b st)"
  by (cases st) (auto simp: merged_def keyword_step_def rid_def)

lemma merged_fold_semantic: "merged st \<Longrightarrow> merged (fold (semantic_step keywordMap) rs st)"
  by (induction rs arbitrary: st) (simp_all add: merged_semantic_step)

lemma merged_fold_keyword: "merged st \<Longrightarrow> merged (fold keyword_step bs st)"
  by (induction bs arbitrary: st) (simp_all add: merged_keyword_step)

lemma distinct_combine: "distinct (map rid (combine keywordResults semanticResults))"
proof -
  have "merged ({}, [])" by (simp add: merged_def)
  then have "merged (fold keyword_step keywordResults
      (fold (semantic_step (new_Map (keyword_pairs keywordResults))) semanticResults ({}, [])))"
    by (intro merged_fold_keyword merged_fold_semantic)
  then show ?thesis by (simp add: combine_def Let_def merged_def)
qed

lemma distinct_map_sort_key:
  assumes "distinct (map f xs)"
  shows "distinct (map f (sort_key k xs))"
  using assms by (simp add: distinct_map)

lemma distinct_map_take:
  assumes "distinct (map f xs)"
  shows "distinct (map f (take n xs))"
  using assms by (simp add: take_map [symmetric])

lemma slice0_take: "\<exists>n. slice0 l xs = take n xs"
  by (auto simp: slice0_def)

lemma length_slice0: "0 \<le> l \<Longrightarrow> length (slice0 l xs) \<le> nat l"
  by (simp add: slice0_def)

lemma distinct_map_slice0:
  assumes "distinct (map f xs)"
  shows "distinct (map f (slice0 l xs))"
proof -
  obtain n where "slice0 l xs = take n xs" using slice0_take by blast
  then show ?thesis using assms by (simp add: distinct_map_take)
qed

lemma searchHybrid_Inr:
  assumes "searchHybrid lc fts query options table = Inr results"
  shows "\<exists>keywordResults semanticResults.
    results = slice0 (limit_or_10 options) (sort_by_score (combine keywordResults semanticResults))"
  using assms by (auto simp: searchHybrid_def Let_def split: sum.splits)

lemma create_stored_sample:
  "create asciiLower ''b1'' (sample_belief\<lparr>embedding := None\<rparr>) [] = Inr (stored_sample, [stored_sample])"
  by (simp add: create_def stored_sample_def sample_belief_def Let_def)

lemma cosine_sample:
  "cosineSimilarity (generateEmbedding asciiLower [104, 105] default_dims)
     (generateEmbedding asciiLower [104, 105] default_dims) = Inr 1"
proof -
  have "l2norm (generateEmbedding asciiLower [104, 105] default_dims) = 1"
    by (rule generateEmbedding_unit) (simp_all add: default_dims_def asciiLower_def)
  then show ?thesis by (simp add: cosineSimilarity_self)
qed

lemma searchSemantic_sample:
  "0 < l \<Longrightarrow> searchSemantic asciiLower [104, 105] (no_options\<lparr>opt_limit := Some l\<rparr>) [stored_sample]
    = Inr [\<lparr>belief = stored_sample, score = 1, matchType = semantic\<rparr>]"
  by (simp add: searchSemantic_def getActive_def where_options_def limit_clause_def
      no_options_def rowToBelief_def stored_sample_def sample_belief_def cosine_sample
      sort_by_score_def slice0_def limit_or_10_def Let_def)

lemma searchKeyword_sample:
  "0 < l \<Longrightarrow> searchKeyword match_all [104, 105] (no_options\<lparr>opt_limit := Some l\<rparr>) [stored_sample]
    = [stored_sample]"
  by (simp add: searchKeyword_def where_options_def limit_clause_def sql_limit_def
      no_options_def rowToBelief_def stored_sample_def sample_belief_def match_all_def Let_def)

lemma combine_sample:
  "combine [stored_sample] [\<lparr>belief = stored_sample, score = 1, matchType = semantic\<rparr>]
    = [\<lparr>belief = stored_sample, score = 1, matchType = hybrid\<rparr>]"
  by (simp add: combine_def new_Map_def keyword_pairs_def semantic_step_def keyword_step_def Let_def)

lemma searchHybrid_sample:
  "searchHybrid asciiLower match_all [104, 105] (no_options\<lparr>opt_limit := Some 3\<rparr>) [stored_sample]
     = Inr [\<lparr>belief = stored_sample, score = 1, matchType = hybrid\<rparr>]"
proof -
  have l: "limit_or_10 (no_options\<lparr>opt_limit := Some 3\<rparr>) = 3"
    by (simp add: limit_or_10_def)
  have o: "no_options\<lparr>opt_limit := Some 3, opt_limit := Some 6\<rparr> = no_options\<lparr>opt_limit := Some 6\<rparr>"
    by simp
  have s: "searchSemantic asciiLower [104, 105] (no_options\<lparr>opt_limit := Some 6\<rparr>) [stored_sample]
    = Inr [\<lparr>belief = stored_sample, score = 1, matchType = semantic\<rparr>]"
    by (rule searchSemantic_sample) simp
  have k: "searchKeyword match_all [104, 105] (no_options\<lparr>opt_limit := Some 6\<rparr>) [stored_sample]
    = [stored_sample]"
    by (rule searchKeyword_sample) simp
  show ?thesis
    by (simp add: searchHybrid_def l o s k combine_sample sort_by_score_def slice0_def)
qed

text \<open>
  Claim C3, amended. Whenever \<^verbatim>\<open>searchHybrid\<close> returns, no two of its results carry the
  same belief identifier (for any table, with or without unique identifiers); the number
  of results is at most the requested limit when that is positive, and at most 10 when
  no limit or a limit of 0 is given.
\<close>

theorem searchHybrid_distinct_limit:
  "searchHybrid lc fts query options table = Inr results \<longrightarrow>
     distinct (map (\<lambda>r. belief_id (belief r)) results)
     \<and> (0 \<le> limit_or_10 options \<longrightarrow> length results \<le> nat (limit_or_10 options))
     \<and> (\<forall>l. opt_limit options = Some l \<and> 0 < l \<longrightarrow> length results \<le> nat l)
     \<and> (opt_limit options = None \<or> opt_limit options = Some 0 \<longrightarrow> length results \<le> 10)"
proof
  assume "searchHybrid lc fts query options table = Inr results"
  then obtain kw sem where
    r: "results = slice0 (limit_or_10 options) (sort_by_score (combine kw sem))"
    using searchHybrid_Inr by blast
  have "distinct (map rid (sort_by_score (combine kw sem)))"
    unfolding sort_by_score_def using distinct_combine by (rule distinct_map_sort_key)
  then have "distinct (map rid results)"
    unfolding r by (rule distinct_map_slice0)
  then have d: "distinct (map (\<lambda>r. belief_id (belief r)) results)"
    by (simp add: rid_def [abs_def])
  have len: "0 \<le> limit_or_10 options \<longrightarrow> length results \<le> nat (limit_or_10 options)"
    by (simp add: r length_slice0)
  have pos: "\<forall>l. opt_limit options = Some l \<and> 0 < l \<longrightarrow> length results \<le> nat l"
    using len by (auto simp: limit_or_10_def)
  have dflt: "opt_limit options = None \<or> opt_limit options = Some 0 \<longrightarrow> length results \<le> 10"
    using len by (auto simp: limit_or_10_def)
  from d len pos dflt
  show "distinct (map (\<lambda>r. belief_id (belief r)) results)
     \<and> (0 \<le> limit_or_10 options \<longrightarrow> length results \<le> nat (limit_or_10 options))
     \<and> (\<forall>l. opt_limit options = Some l \<and> 0 < l \<longrightarrow> length results \<le> nat l)
     \<and> (opt_limit options = None \<or> opt_limit options = Some 0 \<longrightarrow> length results \<le> 10)"
    by blast
qed

text \<open>
  Claim C3, as stated, fails for a requested limit of 0: the limit is read as 10
  (\<^verbatim>\<open>options.limit || 10\<close>), and the one stored belief that matches is returned.
\<close>

theorem searchHybrid_limit_counterexample:
  "searchHybrid asciiLower match_all [104, 105] (no_options\<lparr>opt_limit := Some 0\<rparr>) [stored_sample]
     = Inr [\<lparr>belief = stored_sample, score = 1, matchType = hybrid\<rparr>]
   \<and> \<not> length [\<lparr>belief = stored_sample, score = 1, matchType = hybrid\<rparr>] \<le> nat 0"
proof -
  have l: "limit_or_10 (no_options\<lparr>opt_limit := Some 0\<rparr>) = 10"
    by (simp add: limit_or_10_def)
  have o: "no_options\<lparr>opt_limit := Some 0, opt_limit := Some 20\<rparr> = no_options\<lparr>opt_limit := Some 20\<rparr>"
    by simp
  have s: "searchSemantic asciiLower [104, 105] (no_options\<lparr>opt_limit := Some 20\<rparr>) [stored_sample]
    = Inr [\<lparr>belief = stored_sample, score = 1, matchType = semantic\<rparr>]"
    by (rule searchSemantic_sample) simp
  have k: "searchKeyword match_all [104, 105] (no_options\<lparr>opt_limit := Some 20\<rparr>) [stored_sample]
    = [stored_sample]"
    by (rule searchKeyword_sample) simp
  show ?thesis
    by (simp add: searchHybrid_def l o s k combine_sample sort_by_score_def slice0_def)
qed

theorem searchHybrid_distinct_limit_witness:
  "searchHybrid asciiLower match_all [104, 105] (no_options\<lparr>opt_limit := Some 3\<rparr>) [stored_sample]
     = Inr [\<lparr>belief = stored_sample, score = 1, matchType = hybrid\<rparr>]
   \<and> distinct (map (\<lambda>r. belief_id (belief r)) [\<lparr>belief = stored_sample, score = 1, matchType = hybrid\<rparr>])
   \<and> length [\<lparr>belief = stored_sample, score = 1, matchType = hybrid\<rparr>] \<le> nat 3"
proof -
  have p: "opt_limit (no_options\<lparr>opt_limit := Some 3\<rparr>) = Some 3 \<and> (0::int) < 3"
    by simp
  from searchHybrid_sample p searchHybrid_distinct_limit [of asciiLower match_all "[104, 105]"
      "no_options\<lparr>opt_limit := Some 3\<rparr>" "[stored_sample]"
      "[\<lparr>belief = stored_sample, score = 1, matchType = hybrid\<rparr>]"]
  show ?thesis by blast
qed

lemma position_None: "position i bs = None \<longleftrightarrow> i \<notin> set (map belief_id bs)"
  by (induction bs) auto

lemma fold_pairs_position:
  assumes "distinct (map belief_id hits)"
  shows "fold (\<lambda>(k, v) m. m(k \<mapsto> v))
           (map (\<lambda>(i, b). (belief_id b, 1 - real i * 0.1)) (enumerate n hits)) m k
         = (case position k hits of None \<Rightarrow> m k | Some j \<Rightarrow> Some (1 - real (n + j) * 0.1))"
  using assms
proof (induction hits arbitrary: n m)
  case Nil
  then show ?case by simp
next
  case (Cons b bs)
  from Cons.prems have d: "distinct (map belief_id bs)" and nb: "belief_id b \<notin> set (map belief_id bs)"
    by simp_all
  show ?case
  proof (cases "belief_id b = k")
    case True
    then have "position k bs = None" using nb by (simp add: position_None)
    then show ?thesis using True Cons.IH [OF d, of "Suc n" "m(belief_id b \<mapsto> 1 - real n * 0.1)"]
      by simp
  next
    case False
    then show ?thesis using Cons.IH [OF d, of "Suc n" "m(belief_id b \<mapsto> 1 - real n * 0.1)"]
      by (simp split: option.splits)
  qed
qed

lemma new_Map_positional:
  assumes "distinct (map belief_id hits)"
  shows "new_Map (keyword_pairs hits) k = spec_positional_score hits k"
  using fold_pairs_position [OF assms, of 0 Map.empty k]
  by (simp add: new_Map_def keyword_pairs_def spec_positional_score_def split: option.splits)

lemma semantic_step_new:
  "rid r \<notin> seen \<Longrightarrow>
    semantic_step keywordMap r (seen, acc) = (insert (rid r) seen, acc @ [semantic_result keywordMap r])"
  by (simp add: semantic_step_def semantic_result_def rid_def Let_def split: option.splits)

lemma fold_semantic_step:
  assumes "distinct (map rid rs)" and "set (map rid rs) \<inter> seen = {}"
  shows "fold (semantic_step keywordMap) rs (seen, acc)
    = (seen \<union> set (map rid rs), acc @ map (semantic_result keywordMap) rs)"
  using assms
proof (induction rs arbitrary: seen acc)
  case Nil
  then show ?case by simp
next
  case (Cons r rs)
  from Cons.prems have new: "rid r \<notin> seen" and d: "distinct (map rid rs)"
    and dis: "set (map rid rs) \<inter> insert (rid r) seen = {}"
    by auto
  show ?case
    using Cons.IH [OF d dis, of "acc @ [semantic_result keywordMap r]"] new
    by (simp add: semantic_step_new)
qed

lemma keyword_step_cases:
  "keyword_step b (seen, acc) =
    (if belief_id b \<in> seen then (seen, acc)
     else (insert (belief_id b) seen, acc @ [\<lparr>belief = b, score = 0.5, matchType = keyword\<rparr>]))"
  by (simp add: keyword_step_def)

lemma fold_keyword_step:
  assumes "distinct (map belief_id bs)"
  shows "snd (fold keyword_step bs (seen, acc))
    = acc @ map (\<lambda>b. \<lparr>belief = b, score = 0.5, matchType = keyword\<rparr>)
              (filter (\<lambda>b. belief_id b \<notin> seen) bs)"
  using assms
proof (induction bs arbitrary: seen acc)
  case Nil
  then show ?case by simp
next
  case (Cons b bs)
  from Cons.prems have d: "distinct (map belief_id bs)" and nb: "belief_id b \<notin> set (map belief_id bs)"
    by simp_all
  show ?case
  proof (cases "belief_id b \<in> seen")
    case True
    then show ?thesis using Cons.IH [OF d, of seen acc] by (simp add: keyword_step_cases)
  next
    case False
    have "filter (\<lambda>x. belief_id x \<notin> insert (belief_id b) seen) bs
        = filter (\<lambda>x. belief_id x \<notin> seen) bs"
    proof (intro filter_cong refl)
      fix x assume "x \<in> set bs"
      then have "belief_id x \<noteq> belief_id b" using nb by (metis image_eqI set_map)
      then show "(belief_id x \<notin> insert (belief_id b) seen) = (belief_id x \<notin> seen)" by simp
    qed
    then show ?thesis
      using False Cons.IH [OF d, of "insert (belief_id b) seen"
          "acc @ [\<lparr>belief = b, score = 0.5, matchType = keyword\<rparr>]"]
      by (simp add: keyword_step_cases)
  qed
qed

lemma combine_steps:
  assumes "distinct (map belief_id keywordHits)" and "distinct (map rid semanticHits)"
  shows "combine keywordHits semanticHits
    = map (spec_semantic_hit keywordHits) semanticHits @ spec_keyword_only keywordHits semanticHits"
proof -
  let ?km = "new_Map (keyword_pairs keywordHits)"
  have km: "semantic_result ?km = spec_semantic_hit keywordHits"
    by (rule ext) (simp add: semantic_result_def spec_semantic_hit_def new_Map_positional [OF assms(1)])
  have 1: "fold (semantic_step ?km) semanticHits ({}, [])
      = ({} \<union> set (map rid semanticHits), [] @ map (semantic_result ?km) semanticHits)"
    using assms(2) by (intro fold_semantic_step) simp_all
  show ?thesis
    by (simp add: combine_def Let_def 1 fold_keyword_step [OF assms(1)] km spec_keyword_only_def
        rid_def [abs_def])
qed

lemma belief_id_rowToBelief: "belief_id (rowToBelief row) = belief_id row"
  by (simp add: rowToBelief_def)

lemma distinct_ids_where_options:
  "distinct (map belief_id rows) \<Longrightarrow> distinct (map belief_id (where_options options rows))"
  by (simp add: where_options_def Let_def distinct_map_filter split: option.splits)

lemma distinct_ids_limit_clause:
  assumes "distinct (map belief_id rows)"
  shows "distinct (map belief_id (limit_clause options rows))"
proof -
  obtain n where "limit_clause options rows = take n rows"
    using limit_clause_take by blast
  then show ?thesis using assms by (simp add: distinct_map_take)
qed

lemma distinct_ids_getActive:
  assumes "distinct (map belief_id table)"
  shows "distinct (map belief_id (getActive options table))"
proof -
  have "distinct (map belief_id (filter (\<lambda>row. invalidated_at row = None) table))"
    using assms by (rule distinct_map_filter)
  then have "distinct (map belief_id (active_ordered options table))"
    unfolding active_ordered_def
    by (intro distinct_map_sort_key distinct_ids_where_options)
  then have "distinct (map belief_id (limit_clause options (active_ordered options table)))"
    by (rule distinct_ids_limit_clause)
  then show ?thesis
    by (simp add: getActive_eq comp_def belief_id_rowToBelief)
qed

lemma distinct_ids_searchKeyword:
  assumes "distinct (map belief_id table)"
  shows "distinct (map belief_id (searchKeyword fts query options table))"
proof -
  define rows0 where "rows0 = (if opt_activeOnly options \<noteq> Some False
      then filter (\<lambda>row. invalidated_at row = None) (filter (fts_match fts query) table)
      else filter (fts_match fts query) table)"
  have "distinct (map belief_id rows0)"
    unfolding rows0_def using assms by (simp add: distinct_map_filter)
  then have "distinct (map belief_id (sort_key (fts_rank fts query) (where_options options rows0)))"
    by (intro distinct_map_sort_key distinct_ids_where_options)
  then have "distinct (map belief_id
      (limit_clause options (sort_key (fts_rank fts query) (where_options options rows0))))"
    by (rule distinct_ids_limit_clause)
  then show ?thesis
    by (simp add: searchKeyword_def Let_def rows0_def comp_def belief_id_rowToBelief)
qed

lemma score_all_beliefs:
  "score_all queryEmbedding bs = Inr rs \<Longrightarrow> map belief rs = filter (\<lambda>b. embedding b \<noteq> None) bs"
proof (induction bs arbitrary: rs)
  case Nil
  then show ?case by simp
next
  case (Cons b bs)
  show ?case
  proof (cases "embedding b")
    case None
    then show ?thesis using Cons by simp
  next
    case (Some e)
    then show ?thesis using Cons
      by (auto split: sum.splits)
  qed
qed

lemma distinct_ids_searchSemantic:
  assumes "distinct (map belief_id table)"
    and "searchSemantic lc query options table = Inr rs"
  shows "distinct (map rid rs)"
proof -
  from assms(2) obtain scored where
    sc: "score_all (generateEmbedding lc query default_dims)
           (getActive (options\<lparr>opt_limit := None\<rparr>) table) = Inr scored"
    and rs: "rs = slice0 (limit_or_10 options) (sort_by_score scored)"
    by (auto simp: searchSemantic_def Let_def split: sum.splits)
  have "map rid scored = map belief_id (map belief scored)"
    by (simp add: rid_def [abs_def] comp_def)
  also have "\<dots> = map belief_id (filter (\<lambda>b. embedding b \<noteq> None)
      (getActive (options\<lparr>opt_limit := None\<rparr>) table))"
    using sc by (simp add: score_all_beliefs)
  finally have "distinct (map rid scored)"
    using distinct_ids_getActive [OF assms(1), of "options\<lparr>opt_limit := None\<rparr>"]
    by (simp add: distinct_map_filter)
  then have "distinct (map rid (sort_by_score scored))"
    unfolding sort_by_score_def by (rule distinct_map_sort_key)
  then show ?thesis unfolding rs by (rule distinct_map_slice0)
qed



section \<open>Zero-valued options\<close>

lemma searchSemantic_unfold:
  "searchSemantic lc query (options\<lparr>opt_limit := Some l\<rparr>) table =
    (case score_all (generateEmbedding lc query default_dims)
            (getActive (options\<lparr>opt_limit := None\<rparr>) table) of
       Inl e \<Rightarrow> Inl e
     | Inr scored \<Rightarrow> Inr (slice0 (limit_or_10 (options\<lparr>opt_limit := Some l\<rparr>))
                           (sort_key (\<lambda>r. - score r) scored)))"
  by (simp add: searchSemantic_def Let_def sort_by_score_def split: sum.splits)

lemma length_score_all:
  "score_all queryEmbedding bs = Inr rs \<Longrightarrow> length rs = length (filter (\<lambda>b. embedding b \<noteq> None) bs)"
  using score_all_beliefs [of queryEmbedding bs rs] by (metis length_map)

lemma searchKeyword_take:
  "0 < l \<Longrightarrow> searchKeyword fts query (options\<lparr>opt_limit := Some l\<rparr>) table
    = take (nat l) (searchKeyword fts query (options\<lparr>opt_limit := None\<rparr>) table)"
  by (simp add: searchKeyword_def Let_def where_options_limit limit_clause_none limit_clause_pos take_map)

lemma sample_rows_fields:
  assumes "row \<in> set (sample_rows n)"
  shows "invalidated_at row = None"
    and "embedding row = Some (generateEmbedding asciiLower [104, 105] default_dims)"
  using assms by (auto simp: sample_rows_def stored_sample_def sample_belief_def)

lemma length_sample_rows: "length (sample_rows n) = n"
  by (simp add: sample_rows_def)

lemma distinct_sample_rows: "distinct (map belief_id (sample_rows n))"
proof -
  have "map belief_id (sample_rows n) = map (\<lambda>k. replicate (Suc k) CHR ''r'') [0..<n]"
    by (simp add: sample_rows_def comp_def)
  moreover have "inj_on (\<lambda>k. replicate (Suc k) CHR ''r'') (set [0..<n])"
    by (rule inj_onI) (metis length_replicate nat.inject)
  ultimately show ?thesis by (simp add: distinct_map)
qed

lemma where_options_none:
  "opt_minConfidence options = None \<Longrightarrow> opt_domain options = None \<Longrightarrow>
   where_options options rows = rows"
  by (simp add: where_options_def)

lemma getActive_all:
  assumes "\<forall>row\<in>set table. invalidated_at row = None"
    and "opt_minConfidence options = None" and "opt_domain options = None"
  shows "getActive (options\<lparr>opt_limit := None\<rparr>) table
    = map rowToBelief (sort_key (\<lambda>row. (- importance row, - confidence row)) table)"
proof -
  have "filter (\<lambda>row. invalidated_at row = None) table = table"
    using assms(1) by (simp add: filter_id_conv)
  then show ?thesis
    using assms(2,3) by (simp add: getActive_def where_options_none limit_clause_none)
qed

lemma searchKeyword_all:
  assumes "\<forall>row\<in>set table. invalidated_at row = None"
    and "opt_minConfidence options = None" and "opt_domain options = None"
  shows "searchKeyword match_all query (options\<lparr>opt_limit := None\<rparr>) table
    = map rowToBelief (sort_key (\<lambda>row. 0::real) table)"
proof -
  have "filter (\<lambda>row. invalidated_at row = None) table = table"
    using assms(1) by (simp add: filter_id_conv)
  then show ?thesis
    using assms(2,3)
    by (simp add: searchKeyword_def where_options_none limit_clause_none match_all_def Let_def)
qed

lemma score_all_same:
  assumes "\<forall>b\<in>set bs. embedding b = Some e" and "cosineSimilarity queryEmbedding e = Inr s"
  shows "score_all queryEmbedding bs
    = Inr (map (\<lambda>b. \<lparr>belief = b, score = s, matchType = semantic\<rparr>) bs)"
  using assms by (induction bs) simp_all

lemma embedding_rowToBelief: "embedding (rowToBelief row) = embedding row"
  by (simp add: rowToBelief_def)

lemma semantic_sample_rows:
  "score_all (generateEmbedding asciiLower [104, 105] default_dims)
     (getActive (no_options\<lparr>opt_limit := None\<rparr>) (sample_rows n))
   = Inr (map (\<lambda>b. \<lparr>belief = b, score = 1, matchType = semantic\<rparr>)
            (getActive (no_options\<lparr>opt_limit := None\<rparr>) (sample_rows n)))"
proof (rule score_all_same)
  have g: "getActive (no_options\<lparr>opt_limit := None\<rparr>) (sample_rows n)
      = map rowToBelief (sort_key (\<lambda>row. (- importance row, - confidence row)) (sample_rows n))"
    by (rule getActive_all) (simp_all add: sample_rows_fields no_options_def)
  show "\<forall>b\<in>set (getActive (no_options\<lparr>opt_limit := None\<rparr>) (sample_rows n)).
      embedding b = Some (generateEmbedding asciiLower [104, 105] default_dims)"
    unfolding g by (auto simp: embedding_rowToBelief sample_rows_fields)
  show "cosineSimilarity (generateEmbedding asciiLower [104, 105] default_dims)
      (generateEmbedding asciiLower [104, 105] default_dims) = Inr 1"
    by (rule cosine_sample)
qed

lemma length_getActive_sample_rows:
  "length (getActive (no_options\<lparr>opt_limit := None\<rparr>) (sample_rows n)) = n"
proof -
  have g: "getActive (no_options\<lparr>opt_limit := None\<rparr>) (sample_rows n)
      = map rowToBelief (sort_key (\<lambda>row. (- importance row, - confidence row)) (sample_rows n))"
    by (rule getActive_all) (simp_all add: sample_rows_fields no_options_def)
  show ?thesis unfolding g by (simp add: length_sample_rows)
qed

lemma ids_getActive_sample_rows:
  "set (map belief_id (getActive (no_options\<lparr>opt_limit := None\<rparr>) (sample_rows n)))
    = set (map belief_id (sample_rows n))"
proof -
  have g: "getActive (no_options\<lparr>opt_limit := None\<rparr>) (sample_rows n)
      = map rowToBelief (sort_key (\<lambda>row. (- importance row, - confidence row)) (sample_rows n))"
    by (rule getActive_all) (simp_all add: sample_rows_fields no_options_def)
  show ?thesis unfolding g by (simp add: comp_def belief_id_rowToBelief)
qed

lemma searchSemantic_sample_rows:
  assumes "n \<le> nat l" and "0 < l"
  shows "searchSemantic asciiLower [104, 105] (no_options\<lparr>opt_limit := Some l\<rparr>) (sample_rows n)
    = Inr (sort_key (\<lambda>r. - score r)
            (map (\<lambda>b. \<lparr>belief = b, score = 1, matchType = semantic\<rparr>)
               (getActive (no_options\<lparr>opt_limit := None\<rparr>) (sample_rows n))))"
  using assms
  by (simp add: searchSemantic_unfold semantic_sample_rows limit_or_10_def slice0_def
      length_getActive_sample_rows)

lemma searchKeyword_sample_rows:
  assumes "n \<le> nat l" and "0 < l"
  shows "searchKeyword match_all [104, 105] (no_options\<lparr>opt_limit := Some l\<rparr>) (sample_rows n)
    = map rowToBelief (sort_key (\<lambda>row. 0::real) (sample_rows n))"
proof -
  have k: "searchKeyword match_all [104, 105] (no_options\<lparr>opt_limit := None\<rparr>) (sample_rows n)
      = map rowToBelief (sort_key (\<lambda>row. 0::real) (sample_rows n))"
    by (rule searchKeyword_all) (simp_all add: sample_rows_fields no_options_def)
  show ?thesis
    using assms by (simp add: searchKeyword_take k length_sample_rows)
qed

lemma length_combine_sample_rows:
  assumes "n \<le> 20"
  shows "length (combine
      (searchKeyword match_all [104, 105] (no_options\<lparr>opt_limit := Some 20\<rparr>) (sample_rows n))
      (sort_key (\<lambda>r. - score r)
         (map (\<lambda>b. \<lparr>belief = b, score = 1, matchType = semantic\<rparr>)
            (getActive (no_options\<lparr>opt_limit := None\<rparr>) (sample_rows n))))) = n"
proof -
  let ?kw = "searchKeyword match_all [104, 105] (no_options\<lparr>opt_limit := Some 20\<rparr>) (sample_rows n)"
  let ?sem = "sort_key (\<lambda>r. - score r)
         (map (\<lambda>b. \<lparr>belief = b, score = 1, matchType = semantic\<rparr>)
            (getActive (no_options\<lparr>opt_limit := None\<rparr>) (sample_rows n)))"
  have sem: "searchSemantic asciiLower [104, 105] (no_options\<lparr>opt_limit := Some 20\<rparr>) (sample_rows n)
      = Inr ?sem"
    using assms by (intro searchSemantic_sample_rows) simp_all
  have dk: "distinct (map belief_id ?kw)"
    using distinct_sample_rows by (rule distinct_ids_searchKeyword)
  have ds: "distinct (map rid ?sem)"
    using distinct_sample_rows sem by (rule distinct_ids_searchSemantic)
  have ids_sem: "set (map rid ?sem) = set (map belief_id (sample_rows n))"
    using ids_getActive_sample_rows [of n] by (simp add: rid_def [abs_def] comp_def image_image)
  have kw: "?kw = map rowToBelief (sort_key (\<lambda>row. 0::real) (sample_rows n))"
    using assms by (intro searchKeyword_sample_rows) simp_all
  have ids_kw: "set (map belief_id ?kw) = set (map belief_id (sample_rows n))"
    unfolding kw by (simp add: comp_def belief_id_rowToBelief)
  have "filter (\<lambda>b. belief_id b \<notin> set (map (\<lambda>r. belief_id (belief r)) ?sem)) ?kw = []"
    using ids_sem ids_kw by (auto simp: filter_empty_conv rid_def [abs_def])
  then have "spec_keyword_only ?kw ?sem = []"
    by (simp add: spec_keyword_only_def)
  then have "combine ?kw ?sem = map (spec_semantic_hit ?kw) ?sem"
    using combine_steps [OF dk ds] by simp
  then show ?thesis by (simp add: length_getActive_sample_rows)
qed

lemma searchHybrid_sample_rows:
  "map_sum id length
     (searchHybrid asciiLower match_all [104, 105] (no_options\<lparr>opt_limit := Some 0\<rparr>) (sample_rows 11))
   = Inr 10"
proof -
  have l: "limit_or_10 (no_options\<lparr>opt_limit := Some 0\<rparr>) = 10"
    by (simp add: limit_or_10_def)
  have o: "no_options\<lparr>opt_limit := Some 0, opt_limit := Some 20\<rparr> = no_options\<lparr>opt_limit := Some 20\<rparr>"
    by simp
  have sem: "searchSemantic asciiLower [104, 105] (no_options\<lparr>opt_limit := Some 20\<rparr>) (sample_rows 11)
      = Inr (sort_key (\<lambda>r. - score r)
            (map (\<lambda>b. \<lparr>belief = b, score = 1, matchType = semantic\<rparr>)
               (getActive (no_options\<lparr>opt_limit := None\<rparr>) (sample_rows 11))))"
    by (intro searchSemantic_sample_rows) simp_all
  have len: "length (combine
      (searchKeyword match_all [104, 105] (no_options\<lparr>opt_limit := Some 20\<rparr>) (sample_rows 11))
      (sort_key (\<lambda>r. - score r)
         (map (\<lambda>b. \<lparr>belief = b, score = 1, matchType = semantic\<rparr>)
            (getActive (no_options\<lparr>opt_limit := None\<rparr>) (sample_rows 11))))) = 11"
    by (rule length_combine_sample_rows) simp
  show ?thesis
    by (simp add: searchHybrid_def Let_def l o sem slice0_def sort_by_score_def len)
qed

lemma searchSemantic_sample_rows_zero:
  "map_sum id length
     (searchSemantic asciiLower [104, 105] (no_options\<lparr>opt_limit := Some 0\<rparr>) (sample_rows 11))
   = Inr 10"
  by (simp add: searchSemantic_unfold semantic_sample_rows limit_or_10_def slice0_def
      length_getActive_sample_rows)

lemma searchKeyword_sample_table:
  "searchKeyword match_all [104, 105] (no_options\<lparr>opt_limit := None\<rparr>) sample_table
    = [sample_belief, sample_belief\<lparr>belief_id := ''b2'', importance := 7, confidence := - 0.5\<rparr>]"
  by (simp add: searchKeyword_def where_options_def limit_clause_def no_options_def sample_table_def
      sample_belief_def rowToBelief_def match_all_def Let_def)

lemma searchSemantic_zero_sample_rows:
  "searchSemantic asciiLower [104, 105] (no_options\<lparr>opt_limit := Some 0\<rparr>) (sample_rows 11)
    = Inr (take 10 (sort_key (\<lambda>r. - score r)
            (map (\<lambda>b. \<lparr>belief = b, score = 1, matchType = semantic\<rparr>)
               (getActive (no_options\<lparr>opt_limit := None\<rparr>) (sample_rows 11)))))"
  by (simp add: searchSemantic_unfold semantic_sample_rows limit_or_10_def slice0_def)

lemma searchHybrid_zero_sample_rows:
  "searchHybrid asciiLower match_all [104, 105] (no_options\<lparr>opt_limit := Some 0\<rparr>) (sample_rows 11)
    = Inr (take 10 (sort_key (\<lambda>r. - score r)
        (combine
          (searchKeyword match_all [104, 105] (no_options\<lparr>opt_limit := Some 20\<rparr>) (sample_rows 11))
          (sort_key (\<lambda>r. - score r)
            (map (\<lambda>b. \<lparr>belief = b, score = 1, matchType = semantic\<rparr>)
               (getActive (no_options\<lparr>opt_limit := None\<rparr>) (sample_rows 11)))))))"
proof -
  have l: "limit_or_10 (no_options\<lparr>opt_limit := Some 0\<rparr>) = 10"
    by (simp add: limit_or_10_def)
  have o: "no_options\<lparr>opt_limit := Some 0, opt_limit := Some 20\<rparr> = no_options\<lparr>opt_limit := Some 20\<rparr>"
    by simp
  have sem: "searchSemantic asciiLower [104, 105] (no_options\<lparr>opt_limit := Some 20\<rparr>) (sample_rows 11)
      = Inr (sort_key (\<lambda>r. - score r)
            (map (\<lambda>b. \<lparr>belief = b, score = 1, matchType = semantic\<rparr>)
               (getActive (no_options\<lparr>opt_limit := None\<rparr>) (sample_rows 11))))"
    by (intro searchSemantic_sample_rows) simp_all
  show ?thesis
    by (simp add: searchHybrid_def Let_def l o sem slice0_def sort_by_score_def)
qed

lemma embedded_sample_rows:
  "filter (\<lambda>b. embedding b \<noteq> None) (getActive (no_options\<lparr>opt_limit := None\<rparr>) (sample_rows n))
    = getActive (no_options\<lparr>opt_limit := None\<rparr>) (sample_rows n)"
proof -
  have g: "getActive (no_options\<lparr>opt_limit := None\<rparr>) (sample_rows n)
      = map rowToBelief (sort_key (\<lambda>row. (- importance row, - confidence row)) (sample_rows n))"
    by (rule getActive_all) (simp_all add: sample_rows_fields no_options_def)
  show ?thesis
    unfolding g by (simp add: filter_id_conv embedding_rowToBelief sample_rows_fields)
qed

text \<open>
  Claim C10. A \<open>minConfidence\<close> of 0 and a \<open>limit\<close> of 0 are read as absent by
  \<^verbatim>\<open>getActive\<close> and \<^verbatim>\<open>searchKeyword\<close>: no confidence filter, no truncation (with no
  domain filter every active row, or every matching row, is returned). A \<open>limit\<close> of 0 is
  read as 10 by \<^verbatim>\<open>searchSemantic\<close> and \<^verbatim>\<open>searchHybrid\<close>: the call equals the call with
  limit 10 and the call with no limit; \<^verbatim>\<open>searchSemantic\<close> returns the first 10 of the
  scored active beliefs that have an embedding, best score first, so exactly
  \<open>min 10\<close> of their number; \<^verbatim>\<open>searchHybrid\<close> returns at most 10 results, the first 10 of
  the merged results of the two searches it runs with limit 20, where a positive limit
  does truncate: \<^verbatim>\<open>searchSemantic\<close> to the first 20 scored beliefs and \<^verbatim>\<open>searchKeyword\<close> to
  the first 20 matches.
\<close>

theorem zero_filters_absent:
  "getActive (options\<lparr>opt_minConfidence := Some 0\<rparr>) table
     = getActive (options\<lparr>opt_minConfidence := None\<rparr>) table
   \<and> searchKeyword fts query (options\<lparr>opt_minConfidence := Some 0\<rparr>) table
     = searchKeyword fts query (options\<lparr>opt_minConfidence := None\<rparr>) table
   \<and> getActive (options\<lparr>opt_limit := Some 0\<rparr>) table
     = getActive (options\<lparr>opt_limit := None\<rparr>) table
   \<and> searchKeyword fts query (options\<lparr>opt_limit := Some 0\<rparr>) table
     = searchKeyword fts query (options\<lparr>opt_limit := None\<rparr>) table
   \<and> getActive \<lparr>opt_limit = Some 0, opt_minConfidence = Some 0, opt_domain = None, opt_activeOnly = a\<rparr> table
     = map rowToBelief (sort_key (\<lambda>row. (- importance row, - confidence row))
         (filter (\<lambda>row. invalidated_at row = None) table))
   \<and> searchKeyword fts query
        \<lparr>opt_limit = Some 0, opt_minConfidence = Some 0, opt_domain = None, opt_activeOnly = Some False\<rparr> table
     = map rowToBelief (sort_key (fts_rank fts query) (filter (fts_match fts query) table))
   \<and> searchSemantic lc query (options\<lparr>opt_limit := Some 0\<rparr>) table
     = searchSemantic lc query (options\<lparr>opt_limit := Some 10\<rparr>) table
   \<and> searchSemantic lc query (options\<lparr>opt_limit := Some 0\<rparr>) table
     = searchSemantic lc query (options\<lparr>opt_limit := None\<rparr>) table
   \<and> searchHybrid lc fts query (options\<lparr>opt_limit := Some 0\<rparr>) table
     = searchHybrid lc fts query (options\<lparr>opt_limit := Some 10\<rparr>) table
   \<and> searchHybrid lc fts query (options\<lparr>opt_limit := Some 0\<rparr>) table
     = searchHybrid lc fts query (options\<lparr>opt_limit := None\<rparr>) table
   \<and> searchSemantic lc query (options\<lparr>opt_limit := Some 0\<rparr>) table =
      (case score_all (generateEmbedding lc query default_dims)
              (getActive (options\<lparr>opt_limit := None\<rparr>) table) of
         Inl e \<Rightarrow> Inl e
       | Inr scored \<Rightarrow> Inr (take 10 (sort_key (\<lambda>r. - score r) scored)))
   \<and> (searchSemantic lc query (options\<lparr>opt_limit := Some 0\<rparr>) table = Inr semanticHits \<longrightarrow>
        length semanticHits =
          min 10 (length (filter (\<lambda>b. embedding b \<noteq> None)
                            (getActive (options\<lparr>opt_limit := None\<rparr>) table))))
   \<and> (searchHybrid lc fts query (options\<lparr>opt_limit := Some 0\<rparr>) table = Inr hybridHits \<longrightarrow>
        length hybridHits \<le> 10
        \<and> (\<exists>semanticResults.
              searchSemantic lc query (options\<lparr>opt_limit := Some 20\<rparr>) table = Inr semanticResults
              \<and> hybridHits =
                  take 10 (sort_key (\<lambda>r. - score r)
                    (combine (searchKeyword fts query (options\<lparr>opt_limit := Some 20\<rparr>) table)
                       semanticResults))))
   \<and> searchSemantic lc query (options\<lparr>opt_limit := Some 20\<rparr>) table =
      (case score_all (generateEmbedding lc query default_dims)
              (getActive (options\<lparr>opt_limit := None\<rparr>) table) of
         Inl e \<Rightarrow> Inl e
       | Inr scored \<Rightarrow> Inr (take 20 (sort_key (\<lambda>r. - score r) scored)))
   \<and> searchKeyword fts query (options\<lparr>opt_limit := Some 20\<rparr>) table
     = take 20 (searchKeyword fts query (options\<lparr>opt_limit := None\<rparr>) table)"
proof (intro conjI)
  show "getActive (options\<lparr>opt_minConfidence := Some 0\<rparr>) table
     = getActive (options\<lparr>opt_minConfidence := None\<rparr>) table"
    by (simp add: getActive_def where_options_zero limit_clause_minConfidence)
  show "searchKeyword fts query (options\<lparr>opt_minConfidence := Some 0\<rparr>) table
     = searchKeyword fts query (options\<lparr>opt_minConfidence := None\<rparr>) table"
    by (simp add: searchKeyword_def where_options_zero limit_clause_minConfidence)
  show "getActive (options\<lparr>opt_limit := Some 0\<rparr>) table
     = getActive (options\<lparr>opt_limit := None\<rparr>) table"
    by (simp add: getActive_def where_options_limit limit_clause_zero limit_clause_none)
  show "searchKeyword fts query (options\<lparr>opt_limit := Some 0\<rparr>) table
     = searchKeyword fts query (options\<lparr>opt_limit := None\<rparr>) table"
    by (simp add: searchKeyword_def where_options_limit limit_clause_zero limit_clause_none)
  show "getActive \<lparr>opt_limit = Some 0, opt_minConfidence = Some 0, opt_domain = None, opt_activeOnly = a\<rparr> table
     = map rowToBelief (sort_key (\<lambda>row. (- importance row, - confidence row))
         (filter (\<lambda>row. invalidated_at row = None) table))"
    by (simp add: getActive_def where_options_def limit_clause_def)
  show "searchKeyword fts query
        \<lparr>opt_limit = Some 0, opt_minConfidence = Some 0, opt_domain = None, opt_activeOnly = Some False\<rparr> table
     = map rowToBelief (sort_key (fts_rank fts query) (filter (fts_match fts query) table))"
    by (simp add: searchKeyword_def where_options_def limit_clause_def)
  show "searchSemantic lc query (options\<lparr>opt_limit := Some 0\<rparr>) table
     = searchSemantic lc query (options\<lparr>opt_limit := Some 10\<rparr>) table"
    by (rule searchSemantic_limit) (simp_all add: limit_or_10_def)
  show "searchSemantic lc query (options\<lparr>opt_limit := Some 0\<rparr>) table
     = searchSemantic lc query (options\<lparr>opt_limit := None\<rparr>) table"
    by (rule searchSemantic_limit) (simp_all add: limit_or_10_def)
  show "searchHybrid lc fts query (options\<lparr>opt_limit := Some 0\<rparr>) table
     = searchHybrid lc fts query (options\<lparr>opt_limit := Some 10\<rparr>) table"
    by (simp add: searchHybrid_def limit_or_10_def split: sum.splits)
  show "searchHybrid lc fts query (options\<lparr>opt_limit := Some 0\<rparr>) table
     = searchHybrid lc fts query (options\<lparr>opt_limit := None\<rparr>) table"
    by (simp add: searchHybrid_def limit_or_10_def split: sum.splits)
  show s0: "searchSemantic lc query (options\<lparr>opt_limit := Some 0\<rparr>) table =
      (case score_all (generateEmbedding lc query default_dims)
              (getActive (options\<lparr>opt_limit := None\<rparr>) table) of
         Inl e \<Rightarrow> Inl e
       | Inr scored \<Rightarrow> Inr (take 10 (sort_key (\<lambda>r. - score r) scored)))"
    by (simp add: searchSemantic_unfold limit_or_10_def slice0_def split: sum.splits)
  show "searchSemantic lc query (options\<lparr>opt_limit := Some 0\<rparr>) table = Inr semanticHits \<longrightarrow>
        length semanticHits =
          min 10 (length (filter (\<lambda>b. embedding b \<noteq> None)
                            (getActive (options\<lparr>opt_limit := None\<rparr>) table)))"
  proof
    assume "searchSemantic lc query (options\<lparr>opt_limit := Some 0\<rparr>) table = Inr semanticHits"
    then obtain scored where
      sc: "score_all (generateEmbedding lc query default_dims)
             (getActive (options\<lparr>opt_limit := None\<rparr>) table) = Inr scored"
      and r: "semanticHits = take 10 (sort_key (\<lambda>r. - score r) scored)"
      unfolding s0 by (auto split: sum.splits)
    show "length semanticHits =
          min 10 (length (filter (\<lambda>b. embedding b \<noteq> None)
                            (getActive (options\<lparr>opt_limit := None\<rparr>) table)))"
      by (simp add: r length_score_all [OF sc] min.commute)
  qed
  show "searchHybrid lc fts query (options\<lparr>opt_limit := Some 0\<rparr>) table = Inr hybridHits \<longrightarrow>
        length hybridHits \<le> 10
        \<and> (\<exists>semanticResults.
              searchSemantic lc query (options\<lparr>opt_limit := Some 20\<rparr>) table = Inr semanticResults
              \<and> hybridHits =
                  take 10 (sort_key (\<lambda>r. - score r)
                    (combine (searchKeyword fts query (options\<lparr>opt_limit := Some 20\<rparr>) table)
                       semanticResults)))"
    by (auto simp: searchHybrid_def Let_def limit_or_10_def slice0_def sort_by_score_def
        split: sum.splits)
  show "searchSemantic lc query (options\<lparr>opt_limit := Some 20\<rparr>) table =
      (case score_all (generateEmbedding lc query default_dims)
              (getActive (options\<lparr>opt_limit := None\<rparr>) table) of
         Inl e \<Rightarrow> Inl e
       | Inr scored \<Rightarrow> Inr (take 20 (sort_key (\<lambda>r. - score r) scored)))"
    by (simp add: searchSemantic_unfold limit_or_10_def slice0_def split: sum.splits)
  show "searchKeyword fts query (options\<lparr>opt_limit := Some 20\<rparr>) table
     = take 20 (searchKeyword fts query (options\<lparr>opt_limit := None\<rparr>) table)"
    using searchKeyword_take [of 20 fts query options table] by simp
qed

theorem zero_filters_absent_witness:
  "getActive (no_options\<lparr>opt_minConfidence := Some 0\<rparr>) sample_table =
     [sample_belief\<lparr>belief_id := ''b2'', importance := 7, confidence := - 0.5\<rparr>, sample_belief]
   \<and> getActive (no_options\<lparr>opt_limit := Some 0\<rparr>) sample_table =
     [sample_belief\<lparr>belief_id := ''b2'', importance := 7, confidence := - 0.5\<rparr>, sample_belief]
   \<and> searchKeyword match_all [104, 105] (no_options\<lparr>opt_minConfidence := Some 0\<rparr>) sample_table =
     [sample_belief, sample_belief\<lparr>belief_id := ''b2'', importance := 7, confidence := - 0.5\<rparr>]
   \<and> searchKeyword match_all [104, 105] (no_options\<lparr>opt_limit := Some 0\<rparr>) sample_table =
     [sample_belief, sample_belief\<lparr>belief_id := ''b2'', importance := 7, confidence := - 0.5\<rparr>]
   \<and> length (getActive (no_options\<lparr>opt_limit := Some 0\<rparr>) (sample_rows 11)) = 11
   \<and> length (searchKeyword match_all [104, 105] (no_options\<lparr>opt_limit := Some 0\<rparr>) (sample_rows 11)) = 11
   \<and> map_sum id length
       (searchSemantic asciiLower [104, 105] (no_options\<lparr>opt_limit := Some 0\<rparr>) (sample_rows 11))
     = Inr 10
   \<and> map_sum id length
       (searchHybrid asciiLower match_all [104, 105] (no_options\<lparr>opt_limit := Some 0\<rparr>) (sample_rows 11))
     = Inr 10"
proof -
  let ?S = "take 10 (sort_key (\<lambda>r. - score r)
            (map (\<lambda>b. \<lparr>belief = b, score = 1, matchType = semantic\<rparr>)
               (getActive (no_options\<lparr>opt_limit := None\<rparr>) (sample_rows 11))))"
  let ?H = "take 10 (sort_key (\<lambda>r. - score r)
        (combine
          (searchKeyword match_all [104, 105] (no_options\<lparr>opt_limit := Some 20\<rparr>) (sample_rows 11))
          (sort_key (\<lambda>r. - score r)
            (map (\<lambda>b. \<lparr>belief = b, score = 1, matchType = semantic\<rparr>)
               (getActive (no_options\<lparr>opt_limit := None\<rparr>) (sample_rows 11))))))"
  have n: "no_options\<lparr>opt_limit := None\<rparr> = no_options"
    "no_options\<lparr>opt_minConfidence := None\<rparr> = no_options"
    by (simp_all add: no_options_def)
  note t = zero_filters_absent [of no_options sample_table match_all "[104, 105]" None asciiLower]
  note r = zero_filters_absent [of no_options "sample_rows 11" match_all "[104, 105]" None asciiLower ?S ?H]
  from t have g1: "getActive (no_options\<lparr>opt_minConfidence := Some 0\<rparr>) sample_table
      = getActive (no_options\<lparr>opt_minConfidence := None\<rparr>) sample_table"
    and g2: "getActive (no_options\<lparr>opt_limit := Some 0\<rparr>) sample_table
      = getActive (no_options\<lparr>opt_limit := None\<rparr>) sample_table"
    and k1: "searchKeyword match_all [104, 105] (no_options\<lparr>opt_minConfidence := Some 0\<rparr>) sample_table
      = searchKeyword match_all [104, 105] (no_options\<lparr>opt_minConfidence := None\<rparr>) sample_table"
    and k2: "searchKeyword match_all [104, 105] (no_options\<lparr>opt_limit := Some 0\<rparr>) sample_table
      = searchKeyword match_all [104, 105] (no_options\<lparr>opt_limit := None\<rparr>) sample_table"
    by blast+
  from r have g3: "getActive (no_options\<lparr>opt_limit := Some 0\<rparr>) (sample_rows 11)
      = getActive (no_options\<lparr>opt_limit := None\<rparr>) (sample_rows 11)"
    and k3: "searchKeyword match_all [104, 105] (no_options\<lparr>opt_limit := Some 0\<rparr>) (sample_rows 11)
      = searchKeyword match_all [104, 105] (no_options\<lparr>opt_limit := None\<rparr>) (sample_rows 11)"
    by blast+
  from r searchSemantic_zero_sample_rows
  have s: "length ?S = min 10 (length (filter (\<lambda>b. embedding b \<noteq> None)
                            (getActive (no_options\<lparr>opt_limit := None\<rparr>) (sample_rows 11))))"
    by blast
  from r searchHybrid_zero_sample_rows
  have h: "length ?H \<le> 10" by blast
  have h': "10 \<le> length ?H"
    using length_combine_sample_rows [of 11] by simp
  have k: "searchKeyword match_all [104, 105] (no_options\<lparr>opt_limit := None\<rparr>) (sample_rows 11)
      = map rowToBelief (sort_key (\<lambda>row. 0::real) (sample_rows 11))"
    by (rule searchKeyword_all) (simp_all add: sample_rows_fields no_options_def)
  have c1: "getActive (no_options\<lparr>opt_minConfidence := Some 0\<rparr>) sample_table =
     [sample_belief\<lparr>belief_id := ''b2'', importance := 7, confidence := - 0.5\<rparr>, sample_belief]"
    using g1 by (simp add: n getActive_sample)
  have c2: "getActive (no_options\<lparr>opt_limit := Some 0\<rparr>) sample_table =
     [sample_belief\<lparr>belief_id := ''b2'', importance := 7, confidence := - 0.5\<rparr>, sample_belief]"
    using g2 by (simp add: n getActive_sample)
  have c3: "searchKeyword match_all [104, 105] (no_options\<lparr>opt_minConfidence := Some 0\<rparr>) sample_table =
     [sample_belief, sample_belief\<lparr>belief_id := ''b2'', importance := 7, confidence := - 0.5\<rparr>]"
    using k1 searchKeyword_sample_table by (simp add: n)
  have c4: "searchKeyword match_all [104, 105] (no_options\<lparr>opt_limit := Some 0\<rparr>) sample_table =
     [sample_belief, sample_belief\<lparr>belief_id := ''b2'', importance := 7, confidence := - 0.5\<rparr>]"
    using k2 searchKeyword_sample_table by simp
  have c5: "length (getActive (no_options\<lparr>opt_limit := Some 0\<rparr>) (sample_rows 11)) = 11"
    unfolding g3 by (rule length_getActive_sample_rows)
  have c6: "length (searchKeyword match_all [104, 105] (no_options\<lparr>opt_limit := Some 0\<rparr>) (sample_rows 11)) = 11"
    unfolding k3 k by (simp add: length_sample_rows)
  have c7: "map_sum id length
       (searchSemantic asciiLower [104, 105] (no_options\<lparr>opt_limit := Some 0\<rparr>) (sample_rows 11))
     = Inr 10"
    using s
    by (simp add: searchSemantic_zero_sample_rows embedded_sample_rows length_getActive_sample_rows)
  have c8: "map_sum id length
       (searchHybrid asciiLower match_all [104, 105] (no_options\<lparr>opt_limit := Some 0\<rparr>) (sample_rows 11))
     = Inr 10"
    using h h' by (simp add: searchHybrid_zero_sample_rows)
  show ?thesis using c1 c2 c3 c4 c5 c6 c7 c8 by blast
qed

section \<open>The primary key\<close>

lemma ids_map_same:
  assumes "\<And>row. belief_id (f row) = belief_id row"
  shows "map belief_id (map f table) = map belief_id table"
  using assms by simp

lemma ids_update: "map belief_id (snd (update i changes table)) = map belief_id table"
proof -
  have "map belief_id (map (\<lambda>row. if belief_id row = i then set_fields changes row else row) table)
      = map belief_id table"
    by (rule ids_map_same) (simp add: set_fields_def)
  then show ?thesis
    by (simp add: update_def Let_def split: option.splits)
qed

lemma ids_invalidate: "map belief_id (snd (invalidate i reason now table)) = map belief_id table"
  unfolding invalidate_snd by (rule ids_map_same) simp

lemma ids_adjustConfidence: "map belief_id (adjustConfidence config ids delta table) = map belief_id table"
proof (cases "length ids = 0")
  case True
  then show ?thesis by (simp add: adjustConfidence_def)
next
  case False
  have "map belief_id (map (\<lambda>row. if belief_id row \<in> set ids
          then row\<lparr>confidence := max (minConfidenceFloor config) (min 1.0 (confidence row + delta))\<rparr>
          else row) table) = map belief_id table"
    by (rule ids_map_same) simp
  then show ?thesis using False by (simp add: adjustConfidence_def)
qed

lemma ids_decay: "map belief_id (snd (applyConfidenceDecay config cls now table)) = map belief_id table"
  unfolding snd_applyConfidenceDecay by (rule ids_map_same) (simp add: decay_row_def)

lemma ids_create:
  assumes "create lc new_id b table = Inr (fullBelief, table')"
  shows "map belief_id table' = map belief_id table @ [new_id]"
    and "new_id \<notin> set (map belief_id table)" and "belief_id fullBelief = new_id"
  using assms by (auto simp: create_def Let_def split: if_splits option.splits)

text \<open>
  The primary key: no call that writes to the table makes two rows share an identifier
  (\<^verbatim>\<open>create\<close> throws on an identifier that exists, every other call keeps the
  identifiers as they are). This is the hypothesis of claim C4.
\<close>

theorem primary_key_kept:
  assumes "distinct (map belief_id table)"
  shows "distinct (map belief_id (run_call lc config call table))"
proof (cases call)
  case (Create new_id b)
  show ?thesis
  proof (cases "create lc new_id b table")
    case (Inl e)
    then show ?thesis using Create assms by simp
  next
    case (Inr p)
    obtain fullBelief table' where p: "p = (fullBelief, table')" by (cases p)
    from ids_create [OF Inr [unfolded p]] assms
    have "distinct (map belief_id table')" by simp
    then show ?thesis using Create Inr p by simp
  qed
next
  case (Update i changes)
  then show ?thesis using assms by (simp add: ids_update)
next
  case (Invalidate i reason now)
  then show ?thesis using assms by (simp add: ids_invalidate)
next
  case (IncrementContradicting i)
  have "map belief_id (incrementContradicting i table) = map belief_id table"
    unfolding incrementContradicting_def by (rule ids_map_same) simp
  then show ?thesis using IncrementContradicting assms by simp
next
  case (IncrementSupporting i)
  have "map belief_id (incrementSupporting i table) = map belief_id table"
    unfolding incrementSupporting_def by (rule ids_map_same) simp
  then show ?thesis using IncrementSupporting assms by simp
next
  case (AdjustConfidence ids delta)
  then show ?thesis using assms by (simp add: ids_adjustConfidence)
next
  case (ApplyConfidenceDecay cls now)
  then show ?thesis using assms by (simp add: ids_decay)
qed

theorem primary_key_kept_witness:
  "distinct (map belief_id [stored_sample])
   \<and> distinct (map belief_id
        (run_call asciiLower DEFAULT_CONFIG (Create ''b2'' sample_belief) [stored_sample]))
   \<and> run_call asciiLower DEFAULT_CONFIG (Create ''b1'' sample_belief) [stored_sample] = [stored_sample]"
proof -
  have d: "distinct (map belief_id [stored_sample])" by simp
  have c: "run_call asciiLower DEFAULT_CONFIG (Create ''b1'' sample_belief) [stored_sample] = [stored_sample]"
    by (simp add: create_def stored_sample_def sample_belief_def Let_def)
  from d c primary_key_kept [OF d, of asciiLower DEFAULT_CONFIG "Create ''b2'' sample_belief"]
  show ?thesis by simp
qed

end
